theory Spec2Isabelle
  imports Complex_Main
begin

section \<open>SQL values\<close>

text \<open>
  The governance engine of the repository is the PostgreSQL schema of
  \<^verbatim>\<open>supabase/migrations\<close> (tables, CHECK and UNIQUE constraints, row level
  security policies, triggers and SECURITY DEFINER functions) together with the
  realtime hook \<^verbatim>\<open>useAgentsRealtime\<close> of the frontend.  Tables are lists of rows,
  a nullable column is an \<open>option\<close> (\<open>None\<close> is SQL NULL), a statement is a function
  from the database to an error or the new database.  The database is the one the
  dated migrations build, one after the other; a constraint the migrations do not name
  has the name PostgreSQL gives it.  \<^verbatim>\<open>FULL_SETUP.sql\<close> is a one-script variant of the
  earlier migrations: the columns, the CHECK and UNIQUE constraints and the triggers of
  \<^verbatim>\<open>agents\<close> and of the audit table, and \<^verbatim>\<open>handle_new_user\<close>, are the same in it.  A
  NOT NULL column has no \<open>option\<close>: a statement that would store NULL in it fails in
  PostgreSQL and has no counterpart here.
\<close>

type_synonym uuid = nat
type_synonym timestamptz = nat

text \<open>\<^verbatim>\<open>CREATE TYPE app_role AS ENUM ('admin', 'user')\<close>\<close>

datatype app_role = role_admin | role_user

text \<open>
  SQL booleans are three-valued: \<open>None\<close> is NULL (unknown).  A policy or a WHERE
  clause lets a row through only when its condition is true; a CHECK constraint
  rejects a row only when its condition is false.
\<close>

type_synonym sql_bool = "bool option"

definition sql_eq :: "'a option \<Rightarrow> 'a option \<Rightarrow> sql_bool" where
  "sql_eq x y = (case x of None \<Rightarrow> None | Some a \<Rightarrow> (case y of None \<Rightarrow> None | Some b \<Rightarrow> Some (a = b)))"

definition sql_and :: "sql_bool \<Rightarrow> sql_bool \<Rightarrow> sql_bool" where
  "sql_and x y =
     (if x = Some False \<or> y = Some False then Some False
      else if x = Some True \<and> y = Some True then Some True
      else None)"

definition is_true :: "sql_bool \<Rightarrow> bool" where
  "is_true b = (b = Some True)"

definition check_passes :: "sql_bool \<Rightarrow> bool" where
  "check_passes b = (b \<noteq> Some False)"

section \<open>Principals: the profiles table\<close>

text \<open>
  \<^verbatim>\<open>CREATE TABLE profiles (id UUID PRIMARY KEY REFERENCES auth.users(id), organization_id UUID,
     email TEXT, full_name TEXT, avatar_url TEXT, role app_role DEFAULT 'user' NOT NULL,
     created_at TIMESTAMPTZ DEFAULT NOW(), updated_at TIMESTAMPTZ DEFAULT NOW())\<close>
  and \<^verbatim>\<open>ALTER TABLE profiles ADD COLUMN IF NOT EXISTS deleted_at TIMESTAMPTZ DEFAULT NULL\<close>.
\<close>

record profile =
  p_id :: uuid
  p_organization_id :: "uuid option"
  p_email :: "string option"
  p_full_name :: "string option"
  p_avatar_url :: "string option"
  p_role :: app_role
  p_created_at :: "timestamptz option"
  p_updated_at :: "timestamptz option"
  p_deleted_at :: "timestamptz option"

text \<open>The columns of a row of \<^verbatim>\<open>auth.users\<close> that \<^verbatim>\<open>handle_new_user\<close> reads;
  \<open>u_meta_full_name\<close> is \<^verbatim>\<open>raw_user_meta_data->>'full_name'\<close>.\<close>

record auth_user =
  u_id :: uuid
  u_email :: "string option"
  u_meta_full_name :: "string option"

datatype error =
    insufficient_privilege
  | check_violation string
  | unique_violation string
  | foreign_key_violation string
  | numeric_value_out_of_range
  | NotFound

definition coalesce :: "'a option \<Rightarrow> 'a option \<Rightarrow> 'a option" where
  "coalesce x y = (case x of None \<Rightarrow> y | Some a \<Rightarrow> Some a)"

text \<open>
  \<^verbatim>\<open>handle_new_user\<close>, the AFTER INSERT trigger on \<^verbatim>\<open>auth.users\<close>:
  \<^verbatim>\<open>INSERT INTO public.profiles (id, email, full_name, role)
     VALUES (NEW.id, NEW.email, COALESCE(NEW.raw_user_meta_data->>'full_name', NEW.email), 'user')\<close>.
  The columns the statement leaves out take their defaults: no organization,
  no avatar, the creation time, and a NULL \<^verbatim>\<open>deleted_at\<close>.
\<close>

definition handle_new_user_row :: "timestamptz \<Rightarrow> auth_user \<Rightarrow> profile" where
  "handle_new_user_row now u =
     \<lparr> p_id = u_id u,
       p_organization_id = None,
       p_email = u_email u,
       p_full_name = coalesce (u_meta_full_name u) (u_email u),
       p_avatar_url = None,
       p_role = role_user,
       p_created_at = Some now,
       p_updated_at = Some now,
       p_deleted_at = None \<rparr>"

definition handle_new_user :: "timestamptz \<Rightarrow> auth_user \<Rightarrow> profile list \<Rightarrow> error + profile list" where
  "handle_new_user now u ps =
     (if u_id u \<in> set (map p_id ps) then Inl (unique_violation ''profiles_pkey'')
      else Inr (ps @ [handle_new_user_row now u]))"

text \<open>
  \<^verbatim>\<open>UPDATE profiles SET ... WHERE ...\<close> fires the BEFORE UPDATE trigger
  \<^verbatim>\<open>update_profiles_updated_at\<close> (\<^verbatim>\<open>NEW.updated_at = NOW()\<close>) on every row it updates.
\<close>

definition update_updated_at_column :: "timestamptz \<Rightarrow> profile \<Rightarrow> profile" where
  "update_updated_at_column now p = p\<lparr>p_updated_at := Some now\<rparr>"

text \<open>
  \<^verbatim>\<open>soft_delete_user(target_user_id)\<close>:
  \<^verbatim>\<open>UPDATE profiles SET deleted_at = NOW() WHERE id = target_user_id AND deleted_at IS NULL; RETURN FOUND;\<close>
  The result pairs the table after the statement with \<^verbatim>\<open>FOUND\<close>.
\<close>

definition soft_delete_user :: "timestamptz \<Rightarrow> uuid \<Rightarrow> profile list \<Rightarrow> profile list \<times> bool" where
  "soft_delete_user now target_user_id ps =
     (map (\<lambda>p. if p_id p = target_user_id \<and> p_deleted_at p = None
                then update_updated_at_column now (p\<lparr>p_deleted_at := Some now\<rparr>) else p) ps,
      list_ex (\<lambda>p. p_id p = target_user_id \<and> p_deleted_at p = None) ps)"

text \<open>
  \<^verbatim>\<open>restore_user(target_user_id)\<close>:
  \<^verbatim>\<open>UPDATE profiles SET deleted_at = NULL WHERE id = target_user_id AND deleted_at IS NOT NULL; RETURN FOUND;\<close>
\<close>

definition restore_user :: "timestamptz \<Rightarrow> uuid \<Rightarrow> profile list \<Rightarrow> profile list \<times> bool" where
  "restore_user now target_user_id ps =
     (map (\<lambda>p. if p_id p = target_user_id \<and> p_deleted_at p \<noteq> None
                then update_updated_at_column now (p\<lparr>p_deleted_at := None\<rparr>) else p) ps,
      list_ex (\<lambda>p. p_id p = target_user_id \<and> p_deleted_at p \<noteq> None) ps)"

text \<open>\<^verbatim>\<open>is_user_active(user_id)\<close>:
  \<^verbatim>\<open>RETURN EXISTS (SELECT 1 FROM profiles WHERE id = user_id AND deleted_at IS NULL)\<close>\<close>

definition is_user_active :: "uuid \<Rightarrow> profile list \<Rightarrow> bool" where
  "is_user_active user_id ps = list_ex (\<lambda>p. p_id p = user_id \<and> p_deleted_at p = None) ps"

section \<open>Column values: INTEGER, FLOAT and JSONB\<close>

text \<open>
  An INTEGER column holds the numbers from \<open>-2147483648\<close> to \<open>2147483647\<close>, or NULL.  A
  statement that gives it another number fails with \<^verbatim>\<open>integer out of range\<close>
  (\<open>numeric_value_out_of_range\<close>) when the value is converted to the type of the
  column, before a trigger, a WITH CHECK clause or a constraint sees the row.
\<close>

definition integer_in_range :: "int option \<Rightarrow> bool" where
  "integer_in_range v = (case v of None \<Rightarrow> True | Some n \<Rightarrow> - 2147483648 \<le> n \<and> n \<le> 2147483647)"

text \<open>
  A FLOAT column holds a finite number, an infinity or NaN.  PostgreSQL orders them
  \<^verbatim>\<open>-Infinity < finite < Infinity < NaN\<close> and takes NaN equal to itself.
\<close>

datatype float8 = Finite real | Infinity | NegInfinity | NaN

fun float8_le :: "float8 \<Rightarrow> float8 \<Rightarrow> bool" where
  "float8_le x NaN = True"
| "float8_le NaN y = False"
| "float8_le NegInfinity y = True"
| "float8_le x NegInfinity = False"
| "float8_le x Infinity = True"
| "float8_le Infinity y = False"
| "float8_le (Finite a) (Finite b) = (a \<le> b)"

datatype jsonb = JNull | JBool bool | JNumber real | JString string | JObject "(string \<times> jsonb) list"

definition jsonb_text :: "string option \<Rightarrow> jsonb" where
  "jsonb_text x = (case x of None \<Rightarrow> JNull | Some s \<Rightarrow> JString s)"

definition jsonb_boolean :: "bool option \<Rightarrow> jsonb" where
  "jsonb_boolean x = (case x of None \<Rightarrow> JNull | Some b \<Rightarrow> JBool b)"

definition jsonb_integer :: "int option \<Rightarrow> jsonb" where
  "jsonb_integer x = (case x of None \<Rightarrow> JNull | Some i \<Rightarrow> JNumber (of_int i))"

definition jsonb_float8 :: "float8 option \<Rightarrow> jsonb" where
  "jsonb_float8 x =
     (case x of None \<Rightarrow> JNull
      | Some (Finite r) \<Rightarrow> JNumber r
      | Some Infinity \<Rightarrow> JString ''Infinity''
      | Some NegInfinity \<Rightarrow> JString ''-Infinity''
      | Some NaN \<Rightarrow> JString ''NaN'')"

definition jsonb_jsonb :: "jsonb option \<Rightarrow> jsonb" where
  "jsonb_jsonb x = (case x of None \<Rightarrow> JNull | Some j \<Rightarrow> j)"

text \<open>The \<^verbatim>\<open>||\<close> of two JSONB objects, on their key-value lists: the right operand wins.\<close>

definition jsonb_concat :: "(string \<times> jsonb) list \<Rightarrow> (string \<times> jsonb) list \<Rightarrow> (string \<times> jsonb) list" where
  "jsonb_concat xs ys = filter (\<lambda>kv. fst kv \<notin> set (map fst ys)) xs @ ys"

text \<open>\<^verbatim>\<open>LEFT(text, 100)\<close>\<close>

definition left100 :: "string option \<Rightarrow> string option" where
  "left100 x = map_option (take 100) x"

section \<open>Configurable entities: agents, sub_agents and the audit table\<close>

text \<open>
  \<^verbatim>\<open>CREATE TABLE agents\<close>: \<^verbatim>\<open>id\<close>, \<^verbatim>\<open>organization_id\<close>, \<^verbatim>\<open>name\<close>, \<^verbatim>\<open>slug\<close> and
  \<^verbatim>\<open>role\<close> are NOT NULL; every other column is nullable, also those with a DEFAULT.
  The columns \<^verbatim>\<open>icon\<close>, \<^verbatim>\<open>settings\<close>, \<^verbatim>\<open>category\<close>, \<^verbatim>\<open>created_at\<close> and
  \<^verbatim>\<open>is_orchestrator\<close>, which no constraint, policy or trigger reads, are left out.
\<close>

record agent =
  a_id :: uuid
  a_organization_id :: uuid
  a_name :: string
  a_slug :: string
  a_role :: string
  a_description :: "string option"
  a_system_prompt :: "string option"
  a_is_active :: "bool option"
  a_ai_model :: "string option"
  a_temperature :: "float8 option"
  a_max_tokens :: "int option"
  a_welcome_message :: "string option"
  a_capabilities :: "jsonb option"
  a_version :: "int option"
  a_modified_by :: "uuid option"
  a_updated_at :: "timestamptz option"

text \<open>\<^verbatim>\<open>CREATE TABLE sub_agents\<close>; it has no \<^verbatim>\<open>version\<close> column.  The columns
  \<^verbatim>\<open>icon\<close> and \<^verbatim>\<open>created_at\<close> are left out.\<close>

record sub_agent =
  sa_id :: uuid
  sa_parent_agent_id :: uuid
  sa_organization_id :: uuid
  sa_name :: string
  sa_slug :: string
  sa_role :: string
  sa_description :: "string option"
  sa_ai_model :: "string option"
  sa_temperature :: "float8 option"
  sa_max_tokens :: "int option"
  sa_system_prompt :: "string option"
  sa_capabilities :: "jsonb option"
  sa_is_active :: "bool option"
  sa_updated_at :: "timestamptz option"
  sa_created_by :: "uuid option"
  sa_modified_by :: "uuid option"

text \<open>\<^verbatim>\<open>CREATE TABLE agent_config_history\<close>\<close>

record history =
  h_id :: uuid
  h_agent_id :: uuid
  h_changed_by :: uuid
  h_changed_at :: "timestamptz option"
  h_changes :: jsonb
  h_previous_config :: jsonb
  h_change_reason :: "string option"

record db =
  organizations :: "uuid list"
  profiles :: "profile list"
  agents :: "agent list"
  sub_agents :: "sub_agent list"
  agent_config_history :: "history list"

definition empty_db :: db where
  "empty_db = \<lparr> organizations = [], profiles = [], agents = [], sub_agents = [],
                agent_config_history = [] \<rparr>"

text \<open>
  An INSERT names a column or leaves it to its DEFAULT; a named nullable column may be
  given NULL.
\<close>

datatype 'a col = DEFAULT | Given 'a

fun col_value :: "'a \<Rightarrow> 'a col \<Rightarrow> 'a" where
  "col_value d DEFAULT = d"
| "col_value d (Given v) = v"

record agent_insert =
  i_id :: uuid
  i_organization_id :: uuid
  i_name :: string
  i_slug :: string
  i_role :: string
  i_description :: "string option"
  i_system_prompt :: "string option"
  i_is_active :: "bool option col"
  i_ai_model :: "string option col"
  i_temperature :: "float8 option col"
  i_max_tokens :: "int option col"
  i_welcome_message :: "string option"
  i_capabilities :: "jsonb option col"
  i_version :: "int option col"
  i_modified_by :: "uuid option"

text \<open>\<^verbatim>\<open>ALTER TABLE agents ADD COLUMN IF NOT EXISTS capabilities JSONB
     DEFAULT '{"rag_enabled": true, "web_search": false, "code_execution": false}'\<close>\<close>

definition agents_default_capabilities :: jsonb where
  "agents_default_capabilities =
     JObject [(''rag_enabled'', JBool True), (''web_search'', JBool False),
              (''code_execution'', JBool False)]"

text \<open>The default of \<^verbatim>\<open>sub_agents.capabilities\<close> has \<^verbatim>\<open>image_generation\<close> as well.\<close>

definition sub_agents_default_capabilities :: jsonb where
  "sub_agents_default_capabilities =
     JObject [(''rag_enabled'', JBool True), (''web_search'', JBool False),
              (''code_execution'', JBool False), (''image_generation'', JBool False)]"

text \<open>The row an INSERT INTO agents builds: \<^verbatim>\<open>is_active BOOLEAN DEFAULT true\<close>,
  \<^verbatim>\<open>ai_model TEXT DEFAULT 'gpt-4o-mini'\<close>, \<^verbatim>\<open>temperature FLOAT DEFAULT 0.7\<close>,
  \<^verbatim>\<open>max_tokens INTEGER DEFAULT 2048\<close>, \<^verbatim>\<open>version INTEGER DEFAULT 1\<close>,
  \<^verbatim>\<open>updated_at TIMESTAMPTZ DEFAULT NOW()\<close>.  The numbers a statement gives for
  \<^verbatim>\<open>max_tokens\<close> and \<^verbatim>\<open>version\<close> are any integers; \<open>agent_integers_in_range\<close>
  tells whether they convert to INTEGER.\<close>

definition agent_row :: "timestamptz \<Rightarrow> agent_insert \<Rightarrow> agent" where
  "agent_row now i =
     \<lparr> a_id = i_id i,
       a_organization_id = i_organization_id i,
       a_name = i_name i,
       a_slug = i_slug i,
       a_role = i_role i,
       a_description = i_description i,
       a_system_prompt = i_system_prompt i,
       a_is_active = col_value (Some True) (i_is_active i),
       a_ai_model = col_value (Some ''gpt-4o-mini'') (i_ai_model i),
       a_temperature = col_value (Some (Finite 0.7)) (i_temperature i),
       a_max_tokens = col_value (Some 2048) (i_max_tokens i),
       a_welcome_message = i_welcome_message i,
       a_capabilities = col_value (Some agents_default_capabilities) (i_capabilities i),
       a_version = col_value (Some 1) (i_version i),
       a_modified_by = i_modified_by i,
       a_updated_at = Some now \<rparr>"

definition agent_integers_in_range :: "agent \<Rightarrow> bool" where
  "agent_integers_in_range r = (integer_in_range (a_max_tokens r) \<and> integer_in_range (a_version r))"

record sub_agent_insert =
  si_id :: uuid
  si_parent_agent_id :: uuid
  si_organization_id :: uuid
  si_name :: string
  si_slug :: string
  si_role :: string
  si_description :: "string option"
  si_ai_model :: "string option col"
  si_temperature :: "float8 option col"
  si_max_tokens :: "int option col"
  si_system_prompt :: "string option"
  si_capabilities :: "jsonb option col"
  si_is_active :: "bool option col"
  si_created_by :: "uuid option"
  si_modified_by :: "uuid option"

definition sub_agent_row :: "timestamptz \<Rightarrow> sub_agent_insert \<Rightarrow> sub_agent" where
  "sub_agent_row now i =
     \<lparr> sa_id = si_id i,
       sa_parent_agent_id = si_parent_agent_id i,
       sa_organization_id = si_organization_id i,
       sa_name = si_name i,
       sa_slug = si_slug i,
       sa_role = si_role i,
       sa_description = si_description i,
       sa_ai_model = col_value (Some ''gpt-4o-mini'') (si_ai_model i),
       sa_temperature = col_value (Some (Finite 0.7)) (si_temperature i),
       sa_max_tokens = col_value (Some 2048) (si_max_tokens i),
       sa_system_prompt = si_system_prompt i,
       sa_capabilities = col_value (Some sub_agents_default_capabilities) (si_capabilities i),
       sa_is_active = col_value (Some True) (si_is_active i),
       sa_updated_at = Some now,
       sa_created_by = si_created_by i,
       sa_modified_by = si_modified_by i \<rparr>"

definition sub_agent_integers_in_range :: "sub_agent \<Rightarrow> bool" where
  "sub_agent_integers_in_range r = integer_in_range (sa_max_tokens r)"

text \<open>\<^verbatim>\<open>CHECK (temperature >= 0 AND temperature <= 2)\<close> and
  \<^verbatim>\<open>CHECK (max_tokens > 0 AND max_tokens <= 128000)\<close>, on both tables.  A CHECK
  constraint sees the row after the conversion of its values, a \<^verbatim>\<open>max_tokens\<close> that
  is an INTEGER.\<close>

definition temperature_check :: "float8 option \<Rightarrow> sql_bool" where
  "temperature_check t =
     (case t of None \<Rightarrow> None
      | Some x \<Rightarrow> Some (float8_le (Finite 0) x \<and> float8_le x (Finite 2)))"

definition max_tokens_check :: "int option \<Rightarrow> sql_bool" where
  "max_tokens_check m =
     (case m of None \<Rightarrow> None | Some n \<Rightarrow> Some (0 < n \<and> n \<le> 128000))"

section \<open>Row level security\<close>

text \<open>
  The helper functions and policies in force after the last migration: the
  consolidated policy fix (\<^verbatim>\<open>get_my_org\<close>, \<^verbatim>\<open>am_i_admin\<close>, \<^verbatim>\<open>am_i_active\<close>, the
  \<^verbatim>\<open>agents_*\<close> and \<^verbatim>\<open>profiles_*\<close> policies), the sub-agents migration
  (\<^verbatim>\<open>is_org_admin\<close>, the \<^verbatim>\<open>sub_agents_*\<close> policies) and, never dropped by a later
  migration, the policy "Admins can insert config history" of the admin panel
  migration.  \<open>uid\<close> is \<^verbatim>\<open>auth.uid()\<close>, NULL for a caller who is not signed in.
\<close>

text \<open>\<^verbatim>\<open>SELECT organization_id FROM profiles WHERE id = auth.uid()\<close>\<close>

definition get_my_org :: "profile list \<Rightarrow> uuid option \<Rightarrow> uuid option" where
  "get_my_org ps uid =
     (case filter (\<lambda>p. Some (p_id p) = uid) ps of [] \<Rightarrow> None | p # _ \<Rightarrow> p_organization_id p)"

text \<open>\<^verbatim>\<open>SELECT EXISTS (SELECT 1 FROM profiles WHERE id = auth.uid() AND role = 'admin' AND deleted_at IS NULL)\<close>\<close>

definition am_i_admin :: "profile list \<Rightarrow> uuid option \<Rightarrow> bool" where
  "am_i_admin ps uid =
     list_ex (\<lambda>p. Some (p_id p) = uid \<and> p_role p = role_admin \<and> p_deleted_at p = None) ps"

text \<open>\<^verbatim>\<open>SELECT EXISTS (SELECT 1 FROM profiles WHERE id = auth.uid() AND deleted_at IS NULL)\<close>;
  no policy calls it.\<close>

definition am_i_active :: "profile list \<Rightarrow> uuid option \<Rightarrow> bool" where
  "am_i_active ps uid = list_ex (\<lambda>p. Some (p_id p) = uid \<and> p_deleted_at p = None) ps"

text \<open>\<^verbatim>\<open>is_org_admin(org_id)\<close>:
  \<^verbatim>\<open>SELECT role INTO user_role FROM profiles WHERE id = auth.uid() AND organization_id = org_id;
     RETURN user_role = 'admin';\<close>  With no such row \<^verbatim>\<open>user_role\<close> is NULL and so is the result.\<close>

definition is_org_admin :: "profile list \<Rightarrow> uuid option \<Rightarrow> uuid \<Rightarrow> sql_bool" where
  "is_org_admin ps uid org_id =
     (case filter (\<lambda>p. Some (p_id p) = uid \<and> p_organization_id p = Some org_id) ps of
        [] \<Rightarrow> None
      | p # _ \<Rightarrow> Some (p_role p = role_admin))"

text \<open>\<^verbatim>\<open>CREATE POLICY "agents_select" ON agents FOR SELECT USING (organization_id = public.get_my_org())\<close>\<close>

definition agents_select :: "profile list \<Rightarrow> uuid option \<Rightarrow> agent \<Rightarrow> bool" where
  "agents_select ps uid a = is_true (sql_eq (Some (a_organization_id a)) (get_my_org ps uid))"

text \<open>\<^verbatim>\<open>agents_insert_admin\<close>, \<^verbatim>\<open>agents_update_admin\<close> (USING and WITH CHECK alike) and
  \<^verbatim>\<open>agents_delete_admin\<close>: \<^verbatim>\<open>organization_id = public.get_my_org() AND public.am_i_admin()\<close>\<close>

definition agents_insert_admin :: "profile list \<Rightarrow> uuid option \<Rightarrow> agent \<Rightarrow> bool" where
  "agents_insert_admin ps uid a =
     is_true (sql_and (sql_eq (Some (a_organization_id a)) (get_my_org ps uid)) (Some (am_i_admin ps uid)))"

definition agents_update_admin :: "profile list \<Rightarrow> uuid option \<Rightarrow> agent \<Rightarrow> bool" where
  "agents_update_admin ps uid a =
     is_true (sql_and (sql_eq (Some (a_organization_id a)) (get_my_org ps uid)) (Some (am_i_admin ps uid)))"

definition agents_delete_admin :: "profile list \<Rightarrow> uuid option \<Rightarrow> agent \<Rightarrow> bool" where
  "agents_delete_admin ps uid a =
     is_true (sql_and (sql_eq (Some (a_organization_id a)) (get_my_org ps uid)) (Some (am_i_admin ps uid)))"

text \<open>\<^verbatim>\<open>sub_agents_select_org\<close>:
  \<^verbatim>\<open>organization_id IN (SELECT organization_id FROM profiles WHERE id = auth.uid())\<close>,
  true exactly when some selected value equals the row's.\<close>

definition sub_agents_select_org :: "profile list \<Rightarrow> uuid option \<Rightarrow> sub_agent \<Rightarrow> bool" where
  "sub_agents_select_org ps uid s =
     list_ex (\<lambda>p. Some (p_id p) = uid \<and> p_organization_id p = Some (sa_organization_id s)) ps"

definition sub_agents_insert_admin :: "profile list \<Rightarrow> uuid option \<Rightarrow> sub_agent \<Rightarrow> bool" where
  "sub_agents_insert_admin ps uid s = is_true (is_org_admin ps uid (sa_organization_id s))"

definition sub_agents_update_admin :: "profile list \<Rightarrow> uuid option \<Rightarrow> sub_agent \<Rightarrow> bool" where
  "sub_agents_update_admin ps uid s = is_true (is_org_admin ps uid (sa_organization_id s))"

definition sub_agents_delete_admin :: "profile list \<Rightarrow> uuid option \<Rightarrow> sub_agent \<Rightarrow> bool" where
  "sub_agents_delete_admin ps uid s = is_true (is_org_admin ps uid (sa_organization_id s))"

text \<open>\<^verbatim>\<open>CREATE POLICY "Admins can insert config history" ON agent_config_history FOR INSERT
     WITH CHECK (EXISTS (SELECT 1 FROM profiles WHERE profiles.id = auth.uid() AND profiles.role = 'admin'))\<close>\<close>

definition admins_can_insert_config_history :: "profile list \<Rightarrow> uuid option \<Rightarrow> bool" where
  "admins_can_insert_config_history ps uid =
     list_ex (\<lambda>p. Some (p_id p) = uid \<and> p_role p = role_admin) ps"

text \<open>\<^verbatim>\<open>profiles_update_own\<close>: \<^verbatim>\<open>USING (auth.uid() = id) WITH CHECK (auth.uid() = id)\<close>\<close>

definition profiles_update_own :: "uuid option \<Rightarrow> profile \<Rightarrow> bool" where
  "profiles_update_own uid p = is_true (sql_eq uid (Some (p_id p)))"

section \<open>Reads\<close>

text \<open>\<^verbatim>\<open>SELECT * FROM agents WHERE ...\<close> as \<open>uid\<close>: the rows the policy and the WHERE clause
  both let through.  A read by identifier that finds no row is NotFound.\<close>

definition select_agents :: "db \<Rightarrow> uuid option \<Rightarrow> (agent \<Rightarrow> bool) \<Rightarrow> agent list" where
  "select_agents d uid wh = filter (\<lambda>a. agents_select (profiles d) uid a \<and> wh a) (agents d)"

definition get_agent :: "db \<Rightarrow> uuid option \<Rightarrow> uuid \<Rightarrow> error + agent" where
  "get_agent d uid aid =
     (case select_agents d uid (\<lambda>a. a_id a = aid) of [] \<Rightarrow> Inl NotFound | a # _ \<Rightarrow> Inr a)"

definition select_sub_agents :: "db \<Rightarrow> uuid option \<Rightarrow> (sub_agent \<Rightarrow> bool) \<Rightarrow> sub_agent list" where
  "select_sub_agents d uid wh =
     filter (\<lambda>s. sub_agents_select_org (profiles d) uid s \<and> wh s) (sub_agents d)"

definition get_sub_agent :: "db \<Rightarrow> uuid option \<Rightarrow> uuid \<Rightarrow> error + sub_agent" where
  "get_sub_agent d uid sid =
     (case select_sub_agents d uid (\<lambda>s. sa_id s = sid) of [] \<Rightarrow> Inl NotFound | s # _ \<Rightarrow> Inr s)"

section \<open>The audit trigger\<close>

text \<open>The constraints of \<^verbatim>\<open>agent_config_history\<close>: primary key, and the foreign keys
  \<^verbatim>\<open>agent_id REFERENCES agents(id)\<close>, \<^verbatim>\<open>changed_by REFERENCES profiles(id)\<close>.\<close>

definition history_constraints :: "history \<Rightarrow> db \<Rightarrow> error option" where
  "history_constraints h d =
     (if h_id h \<in> set (map h_id (agent_config_history d))
        then Some (unique_violation ''agent_config_history_pkey'')
      else if h_agent_id h \<notin> set (map a_id (agents d))
        then Some (foreign_key_violation ''agent_config_history_agent_id_fkey'')
      else if h_changed_by h \<notin> set (map p_id (profiles d))
        then Some (foreign_key_violation ''agent_config_history_changed_by_fkey'')
      else None)"

definition insert_history_row :: "history \<Rightarrow> db \<Rightarrow> error + db" where
  "insert_history_row h d =
     (case history_constraints h d of
        Some e \<Rightarrow> Inl e
      | None \<Rightarrow> Inr (d\<lparr>agent_config_history := agent_config_history d @ [h]\<rparr>))"

text \<open>A caller's own \<^verbatim>\<open>INSERT INTO agent_config_history\<close>, through the INSERT policy.\<close>

definition insert_history :: "uuid option \<Rightarrow> history \<Rightarrow> db \<Rightarrow> error + db" where
  "insert_history uid h d =
     (if \<not> admins_can_insert_config_history (profiles d) uid then Inl insufficient_privilege
      else insert_history_row h d)"

definition old_new :: "jsonb \<Rightarrow> jsonb \<Rightarrow> jsonb" where
  "old_new x y = JObject [(''old'', x), (''new'', y)]"

text \<open>\<^verbatim>\<open>prev_config := jsonb_build_object('name', OLD.name, ...)\<close>\<close>

definition prev_config_of :: "agent \<Rightarrow> jsonb" where
  "prev_config_of OLD =
     JObject [(''name'', JString (a_name OLD)),
              (''role'', JString (a_role OLD)),
              (''description'', jsonb_text (a_description OLD)),
              (''system_prompt'', jsonb_text (a_system_prompt OLD)),
              (''ai_model'', jsonb_text (a_ai_model OLD)),
              (''temperature'', jsonb_float8 (a_temperature OLD)),
              (''max_tokens'', jsonb_integer (a_max_tokens OLD)),
              (''welcome_message'', jsonb_text (a_welcome_message OLD)),
              (''capabilities'', jsonb_jsonb (a_capabilities OLD)),
              (''is_active'', jsonb_boolean (a_is_active OLD))]"

text \<open>\<^verbatim>\<open>changes_json\<close>: one \<^verbatim>\<open>IF OLD.f IS DISTINCT FROM NEW.f THEN changes_json := changes_json || ...\<close>
  for each of \<^verbatim>\<open>name\<close>, \<^verbatim>\<open>role\<close>, \<^verbatim>\<open>system_prompt\<close>, \<^verbatim>\<open>ai_model\<close>, \<^verbatim>\<open>temperature\<close>,
  \<^verbatim>\<open>is_active\<close>, in this order.\<close>

definition changes_of :: "agent \<Rightarrow> agent \<Rightarrow> (string \<times> jsonb) list" where
  "changes_of OLD NEW =
     (let c0 = [];
          c1 = (if a_name OLD \<noteq> a_name NEW
                then jsonb_concat c0 [(''name'', old_new (JString (a_name OLD)) (JString (a_name NEW)))]
                else c0);
          c2 = (if a_role OLD \<noteq> a_role NEW
                then jsonb_concat c1 [(''role'', old_new (JString (a_role OLD)) (JString (a_role NEW)))]
                else c1);
          c3 = (if a_system_prompt OLD \<noteq> a_system_prompt NEW
                then jsonb_concat c2 [(''system_prompt'',
                       old_new (jsonb_text (left100 (a_system_prompt OLD)))
                               (jsonb_text (left100 (a_system_prompt NEW))))]
                else c2);
          c4 = (if a_ai_model OLD \<noteq> a_ai_model NEW
                then jsonb_concat c3 [(''ai_model'',
                       old_new (jsonb_text (a_ai_model OLD)) (jsonb_text (a_ai_model NEW)))]
                else c3);
          c5 = (if a_temperature OLD \<noteq> a_temperature NEW
                then jsonb_concat c4 [(''temperature'',
                       old_new (jsonb_float8 (a_temperature OLD)) (jsonb_float8 (a_temperature NEW)))]
                else c4);
          c6 = (if a_is_active OLD \<noteq> a_is_active NEW
                then jsonb_concat c5 [(''is_active'',
                       old_new (jsonb_boolean (a_is_active OLD)) (jsonb_boolean (a_is_active NEW)))]
                else c5)
      in c6)"

text \<open>
  \<^verbatim>\<open>track_agent_config_change\<close>, BEFORE UPDATE ON agents FOR EACH ROW, SECURITY DEFINER
  (its INSERT is not subject to the policies of the caller):
  \<^verbatim>\<open>IF changes_json != '{}'::jsonb AND NEW.modified_by IS NOT NULL THEN
       INSERT INTO agent_config_history (agent_id, changed_by, changes, previous_config)
       VALUES (NEW.id, NEW.modified_by, changes_json, prev_config);
       NEW.version := COALESCE(OLD.version, 0) + 1;
     END IF;
     RETURN NEW;\<close>
  \<open>hid\<close> is the identifier \<^verbatim>\<open>uuid_generate_v4()\<close> gives the new audit row.  The
  increment of an INTEGER raises an error beyond \<open>2147483647\<close>.
\<close>

definition audit_row :: "uuid \<Rightarrow> timestamptz \<Rightarrow> agent \<Rightarrow> agent \<Rightarrow> uuid \<Rightarrow> history" where
  "audit_row hid now OLD NEW m =
     \<lparr> h_id = hid, h_agent_id = a_id NEW, h_changed_by = m, h_changed_at = Some now,
       h_changes = JObject (changes_of OLD NEW), h_previous_config = prev_config_of OLD,
       h_change_reason = None \<rparr>"

text \<open>\<^verbatim>\<open>COALESCE(OLD.version, 0)\<close>\<close>

definition coalesce0 :: "int option \<Rightarrow> int" where
  "coalesce0 v = (case v of None \<Rightarrow> 0 | Some n \<Rightarrow> n)"

definition track_agent_config_change ::
  "uuid \<Rightarrow> timestamptz \<Rightarrow> agent \<Rightarrow> agent \<Rightarrow> db \<Rightarrow> error + (agent \<times> db)" where
  "track_agent_config_change hid now OLD NEW d =
     (if changes_of OLD NEW = [] then Inr (NEW, d)
      else (case a_modified_by NEW of
              None \<Rightarrow> Inr (NEW, d)
            | Some m \<Rightarrow>
                (case insert_history_row (audit_row hid now OLD NEW m) d of
                   Inl e \<Rightarrow> Inl e
                 | Inr d' \<Rightarrow>
                     (if coalesce0 (a_version OLD) + 1 > 2147483647
                      then Inl numeric_value_out_of_range
                      else Inr (NEW\<lparr>a_version := Some (coalesce0 (a_version OLD) + 1)\<rparr>, d')))))"

section \<open>Statements on agents\<close>

text \<open>
  The constraints of \<^verbatim>\<open>agents\<close> in the order PostgreSQL raises them: the CHECK
  constraints in the order of their names (\<^verbatim>\<open>agents_max_tokens_check\<close>,
  \<^verbatim>\<open>agents_temperature_check\<close>), then the unique indexes (primary key,
  \<^verbatim>\<open>UNIQUE(organization_id, slug)\<close>), then the foreign keys.  \<open>others\<close> are the rows
  the new row is compared with.
\<close>

definition agents_constraints :: "agent \<Rightarrow> agent list \<Rightarrow> db \<Rightarrow> error option" where
  "agents_constraints r others d =
     (if \<not> check_passes (max_tokens_check (a_max_tokens r))
        then Some (check_violation ''agents_max_tokens_check'')
      else if \<not> check_passes (temperature_check (a_temperature r))
        then Some (check_violation ''agents_temperature_check'')
      else if a_id r \<in> set (map a_id others)
        then Some (unique_violation ''agents_pkey'')
      else if list_ex (\<lambda>a. a_organization_id a = a_organization_id r \<and> a_slug a = a_slug r) others
        then Some (unique_violation ''agents_organization_id_slug_key'')
      else if a_organization_id r \<notin> set (organizations d)
        then Some (foreign_key_violation ''agents_organization_id_fkey'')
      else if (case a_modified_by r of None \<Rightarrow> False | Some m \<Rightarrow> m \<notin> set (map p_id (profiles d)))
        then Some (foreign_key_violation ''agents_modified_by_fkey'')
      else None)"

text \<open>\<^verbatim>\<open>INSERT INTO agents\<close> as \<open>uid\<close>: the conversion of the values to the types of
  the columns, the WITH CHECK of \<^verbatim>\<open>agents_insert_admin\<close>, then the constraints.\<close>

definition insert_agent :: "uuid option \<Rightarrow> timestamptz \<Rightarrow> agent_insert \<Rightarrow> db \<Rightarrow> error + db" where
  "insert_agent uid now i d =
     (let r = agent_row now i
      in if \<not> agent_integers_in_range r then Inl numeric_value_out_of_range
         else if \<not> agents_insert_admin (profiles d) uid r then Inl insufficient_privilege
         else (case agents_constraints r (agents d) d of
                 Some e \<Rightarrow> Inl e
               | None \<Rightarrow> Inr (d\<lparr>agents := agents d @ [r]\<rparr>)))"

text \<open>
  \<^verbatim>\<open>UPDATE agents SET ... WHERE id = aid\<close> as \<open>uid\<close>.  \<open>patch\<close> is the SET list, any
  assignment of the columns but \<^verbatim>\<open>id\<close>.  A row the USING clause of
  \<^verbatim>\<open>agents_update_admin\<close> hides is not updated and no error is raised.  For the row
  found, the values of the SET list are computed from the row and converted to the
  types of the columns; the BEFORE UPDATE triggers run in the order of their names
  (\<^verbatim>\<open>track_agent_changes\<close>, \<^verbatim>\<open>update_agents_updated_at\<close>), then the WITH CHECK of the
  policy and the constraints are checked; an error undoes the whole statement, the
  audit row of the trigger with it.  A statement that finds no row computes nothing.
  (A number beyond INTEGER that the statement has as a constant PostgreSQL refuses
  already when it plans the statement, whether a row is found or not; of a statement
  that finds no row the theorems state only that it leaves the database as it was.)
\<close>

definition update_agent ::
  "uuid option \<Rightarrow> timestamptz \<Rightarrow> uuid \<Rightarrow> uuid \<Rightarrow> (agent \<Rightarrow> agent) \<Rightarrow> db \<Rightarrow> error + db" where
  "update_agent uid now hid aid patch d =
     (case filter (\<lambda>a. a_id a = aid \<and> agents_update_admin (profiles d) uid a) (agents d) of
        [] \<Rightarrow> Inr d
      | OLD # _ \<Rightarrow>
          (if \<not> agent_integers_in_range ((patch OLD)\<lparr>a_id := a_id OLD\<rparr>)
           then Inl numeric_value_out_of_range
           else (case track_agent_config_change hid now OLD ((patch OLD)\<lparr>a_id := a_id OLD\<rparr>) d of
             Inl e \<Rightarrow> Inl e
           | Inr (NEW1, d1) \<Rightarrow>
               (let NEW = NEW1\<lparr>a_updated_at := Some now\<rparr>
                in if \<not> agents_update_admin (profiles d) uid NEW then Inl insufficient_privilege
                   else (case agents_constraints NEW (filter (\<lambda>a. a_id a \<noteq> aid) (agents d)) d1 of
                           Some e \<Rightarrow> Inl e
                         | None \<Rightarrow>
                             Inr (d1\<lparr>agents := map (\<lambda>a. if a_id a = aid then NEW else a) (agents d1)\<rparr>))))))"

text \<open>\<^verbatim>\<open>DELETE FROM agents WHERE id = aid\<close> as \<open>uid\<close>; the sub-agents and the audit rows
  of the agent go with it (\<^verbatim>\<open>ON DELETE CASCADE\<close>).\<close>

definition delete_agent :: "uuid option \<Rightarrow> uuid \<Rightarrow> db \<Rightarrow> error + db" where
  "delete_agent uid aid d =
     (if list_ex (\<lambda>a. a_id a = aid \<and> agents_delete_admin (profiles d) uid a) (agents d)
      then Inr (d\<lparr>agents := filter (\<lambda>a. a_id a \<noteq> aid) (agents d),
                  sub_agents := filter (\<lambda>s. sa_parent_agent_id s \<noteq> aid) (sub_agents d),
                  agent_config_history := filter (\<lambda>h. h_agent_id h \<noteq> aid) (agent_config_history d)\<rparr>)
      else Inr d)"

section \<open>Statements on sub_agents\<close>

text \<open>The constraints of \<^verbatim>\<open>sub_agents\<close>, in the same order: CHECK constraints by name,
  the primary key, \<^verbatim>\<open>UNIQUE(parent_agent_id, slug)\<close>, the foreign keys.\<close>

definition sub_agents_constraints :: "sub_agent \<Rightarrow> sub_agent list \<Rightarrow> db \<Rightarrow> error option" where
  "sub_agents_constraints r others d =
     (if \<not> check_passes (max_tokens_check (sa_max_tokens r))
        then Some (check_violation ''sub_agents_max_tokens_check'')
      else if \<not> check_passes (temperature_check (sa_temperature r))
        then Some (check_violation ''sub_agents_temperature_check'')
      else if sa_id r \<in> set (map sa_id others)
        then Some (unique_violation ''sub_agents_pkey'')
      else if list_ex (\<lambda>s. sa_parent_agent_id s = sa_parent_agent_id r \<and> sa_slug s = sa_slug r) others
        then Some (unique_violation ''sub_agents_parent_agent_id_slug_key'')
      else if sa_parent_agent_id r \<notin> set (map a_id (agents d))
        then Some (foreign_key_violation ''sub_agents_parent_agent_id_fkey'')
      else if sa_organization_id r \<notin> set (organizations d)
        then Some (foreign_key_violation ''sub_agents_organization_id_fkey'')
      else if (case sa_created_by r of None \<Rightarrow> False | Some m \<Rightarrow> m \<notin> set (map p_id (profiles d)))
        then Some (foreign_key_violation ''sub_agents_created_by_fkey'')
      else if (case sa_modified_by r of None \<Rightarrow> False | Some m \<Rightarrow> m \<notin> set (map p_id (profiles d)))
        then Some (foreign_key_violation ''sub_agents_modified_by_fkey'')
      else None)"

definition insert_sub_agent ::
  "uuid option \<Rightarrow> timestamptz \<Rightarrow> sub_agent_insert \<Rightarrow> db \<Rightarrow> error + db" where
  "insert_sub_agent uid now i d =
     (let r = sub_agent_row now i
      in if \<not> sub_agent_integers_in_range r then Inl numeric_value_out_of_range
         else if \<not> sub_agents_insert_admin (profiles d) uid r then Inl insufficient_privilege
         else (case sub_agents_constraints r (sub_agents d) d of
                 Some e \<Rightarrow> Inl e
               | None \<Rightarrow> Inr (d\<lparr>sub_agents := sub_agents d @ [r]\<rparr>)))"

text \<open>\<^verbatim>\<open>UPDATE sub_agents SET ... WHERE id = sid\<close>; the only trigger of the table is
  \<^verbatim>\<open>sub_agents_updated_at\<close>.  The values of the SET list are computed and converted
  for the row found, as for \<^verbatim>\<open>agents\<close>.\<close>

definition update_sub_agent ::
  "uuid option \<Rightarrow> timestamptz \<Rightarrow> uuid \<Rightarrow> (sub_agent \<Rightarrow> sub_agent) \<Rightarrow> db \<Rightarrow> error + db" where
  "update_sub_agent uid now sid patch d =
     (case filter (\<lambda>s. sa_id s = sid \<and> sub_agents_update_admin (profiles d) uid s) (sub_agents d) of
        [] \<Rightarrow> Inr d
      | OLD # _ \<Rightarrow>
          (let NEW = (patch OLD)\<lparr>sa_id := sa_id OLD, sa_updated_at := Some now\<rparr>
           in if \<not> sub_agent_integers_in_range NEW then Inl numeric_value_out_of_range
              else if \<not> sub_agents_update_admin (profiles d) uid NEW then Inl insufficient_privilege
              else (case sub_agents_constraints NEW (filter (\<lambda>s. sa_id s \<noteq> sid) (sub_agents d)) d of
                      Some e \<Rightarrow> Inl e
                    | None \<Rightarrow>
                        Inr (d\<lparr>sub_agents := map (\<lambda>s. if sa_id s = sid then NEW else s) (sub_agents d)\<rparr>))))"

definition delete_sub_agent :: "uuid option \<Rightarrow> uuid \<Rightarrow> db \<Rightarrow> error + db" where
  "delete_sub_agent uid sid d =
     (if list_ex (\<lambda>s. sa_id s = sid \<and> sub_agents_delete_admin (profiles d) uid s) (sub_agents d)
      then Inr (d\<lparr>sub_agents := filter (\<lambda>s. sa_id s \<noteq> sid) (sub_agents d)\<rparr>)
      else Inr d)"

section \<open>Statements on profiles and organizations\<close>

text \<open>\<^verbatim>\<open>UPDATE profiles SET ...\<close> as \<open>uid\<close>: the policy \<^verbatim>\<open>profiles_update_own\<close> shows the
  caller its own row only, every column of it but \<^verbatim>\<open>id\<close> may be assigned.\<close>

definition update_own_profile ::
  "uuid option \<Rightarrow> timestamptz \<Rightarrow> (profile \<Rightarrow> profile) \<Rightarrow> db \<Rightarrow> error + db" where
  "update_own_profile uid now patch d =
     (case filter (profiles_update_own uid) (profiles d) of
        [] \<Rightarrow> Inr d
      | OLD # _ \<Rightarrow>
          (let NEW = update_updated_at_column now ((patch OLD)\<lparr>p_id := p_id OLD\<rparr>)
           in if (case p_organization_id NEW of None \<Rightarrow> False | Some g \<Rightarrow> g \<notin> set (organizations d))
              then Inl (foreign_key_violation ''profiles_organization_id_fkey'')
              else Inr (d\<lparr>profiles := map (\<lambda>p. if p_id p = p_id OLD then NEW else p) (profiles d)\<rparr>)))"

definition insert_organization :: "uuid \<Rightarrow> db \<Rightarrow> error + db" where
  "insert_organization g d =
     (if g \<in> set (organizations d) then Inl (unique_violation ''organizations_pkey'')
      else Inr (d\<lparr>organizations := organizations d @ [g]\<rparr>))"

section \<open>The database as a transition system\<close>

datatype op =
    Signup auth_user
  | InsertOrganization uuid
  | UpdateOwnProfile "profile \<Rightarrow> profile"
  | SoftDeleteUser uuid
  | RestoreUser uuid
  | InsertAgent agent_insert
  | UpdateAgent uuid uuid "agent \<Rightarrow> agent"
  | DeleteAgent uuid
  | InsertSubAgent sub_agent_insert
  | UpdateSubAgent uuid "sub_agent \<Rightarrow> sub_agent"
  | DeleteSubAgent uuid
  | InsertHistory history

text \<open>One statement, run as \<open>uid\<close> at time \<open>now\<close>.  A sign-up and the creation of an
  organization are acts of the authentication service and of the operator.  The
  tables \<^verbatim>\<open>profiles\<close> and \<^verbatim>\<open>organizations\<close> have no INSERT or DELETE policy and
  \<^verbatim>\<open>agent_config_history\<close> has no UPDATE or DELETE policy: such a statement of a
  caller is refused or finds no row, and is not among the operations.\<close>

fun exec :: "uuid option \<Rightarrow> timestamptz \<Rightarrow> op \<Rightarrow> db \<Rightarrow> error + db" where
  "exec uid now (Signup u) d =
     (case handle_new_user now u (profiles d) of
        Inl e \<Rightarrow> Inl e
      | Inr ps \<Rightarrow> Inr (d\<lparr>profiles := ps\<rparr>))"
| "exec uid now (InsertOrganization g) d = insert_organization g d"
| "exec uid now (UpdateOwnProfile patch) d = update_own_profile uid now patch d"
| "exec uid now (SoftDeleteUser t) d = Inr (d\<lparr>profiles := fst (soft_delete_user now t (profiles d))\<rparr>)"
| "exec uid now (RestoreUser t) d = Inr (d\<lparr>profiles := fst (restore_user now t (profiles d))\<rparr>)"
| "exec uid now (InsertAgent i) d = insert_agent uid now i d"
| "exec uid now (UpdateAgent hid aid patch) d = update_agent uid now hid aid patch d"
| "exec uid now (DeleteAgent aid) d = delete_agent uid aid d"
| "exec uid now (InsertSubAgent i) d = insert_sub_agent uid now i d"
| "exec uid now (UpdateSubAgent sid patch) d = update_sub_agent uid now sid patch d"
| "exec uid now (DeleteSubAgent sid) d = delete_sub_agent uid sid d"
| "exec uid now (InsertHistory h) d = insert_history uid h d"

text \<open>A script of statements, each with its caller and its time; it stops at the
  first error.\<close>

fun run :: "(uuid option \<times> timestamptz \<times> op) list \<Rightarrow> db \<Rightarrow> error + db" where
  "run [] d = Inr d"
| "run ((uid, now, x) # xs) d = (case exec uid now x d of Inl e \<Rightarrow> Inl e | Inr d' \<Rightarrow> run xs d')"


text \<open>The states reachable from the empty database by statements that satisfy \<open>P\<close>.\<close>

inductive reachable_by :: "(db \<Rightarrow> op \<Rightarrow> bool) \<Rightarrow> db \<Rightarrow> bool" for P :: "db \<Rightarrow> op \<Rightarrow> bool" where
  init: "reachable_by P empty_db"
| step: "reachable_by P d \<Longrightarrow> P d x \<Longrightarrow> exec uid now x d = Inr d' \<Longrightarrow> reachable_by P d'"

definition reachable :: "db \<Rightarrow> bool" where
  "reachable d = reachable_by (\<lambda>_ _. True) d"

text \<open>Statements that leave the version counter to the trigger and the audit table
  to the trigger: an insert that takes version 1, an update whose SET list does not
  assign \<^verbatim>\<open>version\<close>, and no INSERT of a caller into \<^verbatim>\<open>agent_config_history\<close>.\<close>

fun trigger_only :: "db \<Rightarrow> op \<Rightarrow> bool" where
  "trigger_only d (InsertHistory h) = False"
| "trigger_only d (InsertAgent i) = (col_value (Some 1) (i_version i) = Some 1)"
| "trigger_only d (UpdateAgent hid aid patch) =
     list_all (\<lambda>a. a_id a \<noteq> aid \<or> a_version (patch a) = a_version a) (agents d)"
| "trigger_only d x = True"

definition audit_count :: "db \<Rightarrow> uuid \<Rightarrow> int" where
  "audit_count d aid = int (length (filter (\<lambda>h. h_agent_id h = aid) (agent_config_history d)))"

section \<open>The realtime hook\<close>

text \<open>
  The handler of \<^verbatim>\<open>useAgentsRealtime\<close> for a \<^verbatim>\<open>postgres_changes\<close> payload: the new
  value of the state \<^verbatim>\<open>agents\<close> from its previous value \<open>prev\<close>.  The payload carries
  rows of the table; \<^verbatim>\<open>!updatedAgent.is_active\<close> is true for \<^verbatim>\<open>false\<close> and for null.
\<close>

datatype payload = INSERT agent | UPDATE agent agent | DELETE agent

definition truthy :: "bool option \<Rightarrow> bool" where
  "truthy b = (b = Some True)"

fun on_postgres_changes :: "bool \<Rightarrow> payload \<Rightarrow> agent list \<Rightarrow> agent list" where
  "on_postgres_changes activeOnly (INSERT newAgent) prev =
     (if \<not> activeOnly \<or> truthy (a_is_active newAgent) then prev @ [newAgent] else prev)"
| "on_postgres_changes activeOnly (UPDATE oldAgent updatedAgent) prev =
     (if activeOnly \<and> \<not> truthy (a_is_active updatedAgent)
        then filter (\<lambda>a. a_id a \<noteq> a_id updatedAgent) prev
      else if activeOnly \<and> truthy (a_is_active updatedAgent)
              \<and> find (\<lambda>a. a_id a = a_id updatedAgent) prev = None
        then prev @ [updatedAgent]
      else map (\<lambda>a. if a_id a = a_id updatedAgent then updatedAgent else a) prev)"
| "on_postgres_changes activeOnly (DELETE deletedAgent) prev =
     filter (\<lambda>a. a_id a \<noteq> a_id deletedAgent) prev"

text \<open>The reconciliation operations of the specification and their effect on a
  subscriber's view: \<open>Upsert\<close> replaces the entity where the view has it and adds it
  where it has not, \<open>Remove\<close> takes it out.\<close>

datatype ReconciliationOp = Upsert agent | Remove uuid

fun apply_reconciliation :: "ReconciliationOp \<Rightarrow> agent list \<Rightarrow> agent list" where
  "apply_reconciliation (Upsert e) view =
     (if list_ex (\<lambda>a. a_id a = a_id e) view
      then map (\<lambda>a. if a_id a = a_id e then e else a) view
      else view @ [e])"
| "apply_reconciliation (Remove i) view = filter (\<lambda>a. a_id a \<noteq> i) view"

section \<open>Bounds and seed data\<close>




text \<open>The tracked fields of an agent, those the trigger compares.\<close>

definition tracked_fields_equal :: "agent \<Rightarrow> agent \<Rightarrow> bool" where
  "tracked_fields_equal x y =
     (a_name x = a_name y \<and> a_role x = a_role y \<and> a_system_prompt x = a_system_prompt y
      \<and> a_ai_model x = a_ai_model y \<and> a_temperature x = a_temperature y
      \<and> a_is_active x = a_is_active y)"

text \<open>
  Demo data as the setup scripts seed it: the organization "2B Agency", the users
  \<^verbatim>\<open>admin@2b.com\<close> and \<^verbatim>\<open>user@2b.com\<close>, the agent "Agent Copy".  Identifiers are
  numbers here: the organization is 1, the agent 5, the users 8 and 9.
\<close>

definition admin_user :: auth_user where
  "admin_user = \<lparr> u_id = 8, u_email = Some ''admin@2b.com'', u_meta_full_name = None \<rparr>"

definition member_user :: auth_user where
  "member_user = \<lparr> u_id = 9, u_email = Some ''user@2b.com'', u_meta_full_name = None \<rparr>"

definition agent_copy :: agent_insert where
  "agent_copy =
     \<lparr> i_id = 5, i_organization_id = 1, i_name = ''Agent Copy'', i_slug = ''agent-copy'',
       i_role = ''Copywriting Specialist'', i_description = None, i_system_prompt = None,
       i_is_active = Given (Some True), i_ai_model = Given (Some ''gpt-4o-mini''),
       i_temperature = Given (Some (Finite 0.8)), i_max_tokens = Given (Some 4096),
       i_welcome_message = None, i_capabilities = DEFAULT, i_version = DEFAULT,
       i_modified_by = None \<rparr>"

definition seed_script :: "(uuid option \<times> timestamptz \<times> op) list" where
  "seed_script =
     [(None, 0, InsertOrganization 1),
      (None, 1, Signup admin_user),
      (None, 1, Signup member_user),
      (Some 8, 2, UpdateOwnProfile (\<lambda>p. p\<lparr>p_role := role_admin, p_organization_id := Some 1\<rparr>)),
      (Some 9, 2, UpdateOwnProfile (\<lambda>p. p\<lparr>p_organization_id := Some 1\<rparr>)),
      (Some 8, 3, InsertAgent agent_copy)]"

definition seeded_agent :: agent where
  "seeded_agent =
     \<lparr> a_id = 5, a_organization_id = 1, a_name = ''Agent Copy'', a_slug = ''agent-copy'',
       a_role = ''Copywriting Specialist'', a_description = None, a_system_prompt = None,
       a_is_active = Some True, a_ai_model = Some ''gpt-4o-mini'',
       a_temperature = Some (Finite 0.8), a_max_tokens = Some 4096,
       a_welcome_message = None, a_capabilities = Some agents_default_capabilities,
       a_version = Some 1, a_modified_by = None, a_updated_at = Some 3 \<rparr>"

definition seeded_admin :: profile where
  "seeded_admin =
     \<lparr> p_id = 8, p_organization_id = Some 1, p_email = Some ''admin@2b.com'',
       p_full_name = Some ''admin@2b.com'', p_avatar_url = None, p_role = role_admin,
       p_created_at = Some 1, p_updated_at = Some 2, p_deleted_at = None \<rparr>"

definition seeded_member :: profile where
  "seeded_member =
     \<lparr> p_id = 9, p_organization_id = Some 1, p_email = Some ''user@2b.com'',
       p_full_name = Some ''user@2b.com'', p_avatar_url = None, p_role = role_user,
       p_created_at = Some 1, p_updated_at = Some 2, p_deleted_at = None \<rparr>"

definition seeded_db :: db where
  "seeded_db =
     \<lparr> organizations = [1],
       profiles = [seeded_admin, seeded_member],
       agents = [seeded_agent],
       sub_agents = [],
       agent_config_history = [] \<rparr>"

text \<open>A sub-agent of "Agent Copy" and a renamed "Agent Copy", for the examples.\<close>

definition hooks_writer :: sub_agent_insert where
  "hooks_writer =
     \<lparr> si_id = 50, si_parent_agent_id = 5, si_organization_id = 1, si_name = ''Hooks'',
       si_slug = ''hooks'', si_role = ''Hook writer'', si_description = None,
       si_ai_model = DEFAULT, si_temperature = DEFAULT, si_max_tokens = DEFAULT,
       si_system_prompt = None, si_capabilities = DEFAULT, si_is_active = DEFAULT,
       si_created_by = Some 8, si_modified_by = None \<rparr>"




definition rename_by_admin :: "agent \<Rightarrow> agent" where
  "rename_by_admin a = a\<lparr>a_name := ''Agent Copy 2'', a_modified_by := Some 8\<rparr>"


definition agent_versioned :: agent_insert where
  "agent_versioned = agent_copy\<lparr>i_id := 6, i_slug := ''agent-ads'', i_version := Given (Some 7)\<rparr>"








definition rename_hooks :: "sub_agent \<Rightarrow> sub_agent" where
  "rename_hooks s = s\<lparr>sa_name := ''Hooks 2'', sa_modified_by := Some 8\<rparr>"

definition write_version :: "agent \<Rightarrow> agent" where
  "write_version a = a\<lparr>a_version := Some 7\<rparr>"

definition hooks_db :: db where
  "hooks_db = seeded_db\<lparr>sub_agents := [sub_agent_row 5 hooks_writer]\<rparr>"

text \<open>The database after the administrator renames "Agent Copy" at time 4 (the
  audit row gets the identifier 70), and an audit row an administrator writes by
  hand.\<close>

definition renamed_agent :: agent where
  "renamed_agent =
     seeded_agent\<lparr>a_name := ''Agent Copy 2'', a_version := Some 2, a_modified_by := Some 8,
                  a_updated_at := Some 4\<rparr>"

definition renamed_db :: db where
  "renamed_db =
     seeded_db\<lparr>agents := [renamed_agent],
               agent_config_history := [audit_row 70 4 seeded_agent (rename_by_admin seeded_agent) 8]\<rparr>"

definition manual_audit_row :: history where
  "manual_audit_row =
     \<lparr> h_id = 70, h_agent_id = 5, h_changed_by = 8, h_changed_at = Some 4,
       h_changes = JObject [], h_previous_config = JObject [],
       h_change_reason = Some ''written by hand'' \<rparr>"

text \<open>The demo data after \<^verbatim>\<open>soft_delete_user\<close> of the member, and of the
  administrator, at time 4.\<close>

definition member_deleted_db :: db where
  "member_deleted_db =
     seeded_db\<lparr>profiles := [seeded_admin,
                              seeded_member\<lparr>p_deleted_at := Some 4, p_updated_at := Some 4\<rparr>]\<rparr>"

definition admin_deleted_db :: db where
  "admin_deleted_db =
     seeded_db\<lparr>profiles := [seeded_admin\<lparr>p_deleted_at := Some 4, p_updated_at := Some 4\<rparr>,
                              seeded_member]\<rparr>"

section \<open>Invariants\<close>

text \<open>A script all of whose statements satisfy \<open>P\<close> in the state they run in.\<close>

fun steps_ok :: "(db \<Rightarrow> op \<Rightarrow> bool) \<Rightarrow> (uuid option \<times> timestamptz \<times> op) list \<Rightarrow> db \<Rightarrow> bool" where
  "steps_ok P [] d = True"
| "steps_ok P ((uid, now, x) # xs) d =
     (P d x \<and> (case exec uid now x d of Inl e \<Rightarrow> True | Inr d' \<Rightarrow> steps_ok P xs d'))"

text \<open>The statements that touch neither \<^verbatim>\<open>agents\<close> nor the audit table.\<close>

fun agent_neutral :: "op \<Rightarrow> bool" where
  "agent_neutral (InsertAgent i) = False"
| "agent_neutral (UpdateAgent hid aid patch) = False"
| "agent_neutral (DeleteAgent aid) = False"
| "agent_neutral (InsertHistory h) = False"
| "agent_neutral x = True"

text \<open>The primary key of \<^verbatim>\<open>agents\<close>, the foreign key of the audit table, and the
  version counter of every agent one more than the number of its audit rows.\<close>

definition version_audit_inv :: "db \<Rightarrow> bool" where
  "version_audit_inv d =
     (distinct (map a_id (agents d))
      \<and> list_all (\<lambda>h. h_agent_id h \<in> set (map a_id (agents d))) (agent_config_history d)
      \<and> list_all (\<lambda>a. a_version a = Some (audit_count d (a_id a) + 1)) (agents d))"


section \<open>Verified properties\<close>

subsection \<open>What a successful statement did\<close>

lemma changes_of_empty_iff: "(changes_of OLD NEW = []) = tracked_fields_equal OLD NEW"
  unfolding changes_of_def tracked_fields_equal_def Let_def
  by (simp add: jsonb_concat_def)

lemma agents_constraints_NoneD:
  assumes "agents_constraints r others d = None"
  shows "check_passes (temperature_check (a_temperature r))"
    and "check_passes (max_tokens_check (a_max_tokens r))"
    and "a_id r \<notin> set (map a_id others)"
    and "\<not> list_ex (\<lambda>a. a_organization_id a = a_organization_id r \<and> a_slug a = a_slug r) others"
  using assms unfolding agents_constraints_def by (simp_all split: if_splits)

lemma insert_agent_InrD:
  assumes "insert_agent uid now i d = Inr d'"
  shows "d' = d\<lparr>agents := agents d @ [agent_row now i]\<rparr>"
    and "agents_insert_admin (profiles d) uid (agent_row now i)"
    and "agents_constraints (agent_row now i) (agents d) d = None"
    and "agent_integers_in_range (agent_row now i)"
  using assms unfolding insert_agent_def Let_def
  by (simp_all split: if_splits option.splits)

lemma insert_history_row_InrD:
  assumes "insert_history_row h d = Inr d'"
  shows "d' = d\<lparr>agent_config_history := agent_config_history d @ [h]\<rparr>"
    and "history_constraints h d = None"
  using assms unfolding insert_history_row_def by (simp_all split: option.splits)

lemma track_InrD:
  assumes "track_agent_config_change hid now OLD NEW d = Inr (NEW', d')"
  shows "(tracked_fields_equal OLD NEW \<or> a_modified_by NEW = None) \<and> NEW' = NEW \<and> d' = d
       \<or> (\<not> tracked_fields_equal OLD NEW
           \<and> (\<exists>m. a_modified_by NEW = Some m
                \<and> history_constraints (audit_row hid now OLD NEW m) d = None
                \<and> d' = d\<lparr>agent_config_history := agent_config_history d @ [audit_row hid now OLD NEW m]\<rparr>
                \<and> NEW' = NEW\<lparr>a_version := Some (coalesce0 (a_version OLD) + 1)\<rparr>
                \<and> coalesce0 (a_version OLD) + 1 \<le> 2147483647))"
proof (cases "changes_of OLD NEW = []")
  case True
  with assms show ?thesis
    by (simp add: track_agent_config_change_def changes_of_empty_iff)
next
  case False
  note ne = this
  show ?thesis
  proof (cases "a_modified_by NEW")
    case None
    with assms ne show ?thesis by (simp add: track_agent_config_change_def)
  next
    case (Some m)
    from assms ne Some obtain d1 where
      ins: "insert_history_row (audit_row hid now OLD NEW m) d = Inr d1"
      and rest: "(if coalesce0 (a_version OLD) + 1 > 2147483647
                  then Inl numeric_value_out_of_range
                  else Inr (NEW\<lparr>a_version := Some (coalesce0 (a_version OLD) + 1)\<rparr>, d1)) = Inr (NEW', d')"
      by (simp add: track_agent_config_change_def split: sum.splits)
    from rest have le: "coalesce0 (a_version OLD) + 1 \<le> 2147483647"
      and n: "NEW' = NEW\<lparr>a_version := Some (coalesce0 (a_version OLD) + 1)\<rparr>" and dd: "d' = d1"
      by (simp_all split: if_splits)
    from insert_history_row_InrD[OF ins] ne Some le n dd show ?thesis
      by (simp add: changes_of_empty_iff)
  qed
qed

lemma update_agent_InrD:
  assumes "update_agent uid now hid aid patch d = Inr d'"
  shows "(filter (\<lambda>a. a_id a = aid \<and> agents_update_admin (profiles d) uid a) (agents d) = [] \<and> d' = d)
       \<or> (\<exists>OLD rest NEW1 d1.
             filter (\<lambda>a. a_id a = aid \<and> agents_update_admin (profiles d) uid a) (agents d) = OLD # rest
           \<and> agent_integers_in_range ((patch OLD)\<lparr>a_id := a_id OLD\<rparr>)
           \<and> track_agent_config_change hid now OLD ((patch OLD)\<lparr>a_id := a_id OLD\<rparr>) d = Inr (NEW1, d1)
           \<and> agents_update_admin (profiles d) uid (NEW1\<lparr>a_updated_at := Some now\<rparr>)
           \<and> agents_constraints (NEW1\<lparr>a_updated_at := Some now\<rparr>) (filter (\<lambda>a. a_id a \<noteq> aid) (agents d)) d1 = None
           \<and> d' = d1\<lparr>agents := map (\<lambda>a. if a_id a = aid then NEW1\<lparr>a_updated_at := Some now\<rparr> else a) (agents d1)\<rparr>)"
proof (cases "filter (\<lambda>a. a_id a = aid \<and> agents_update_admin (profiles d) uid a) (agents d)")
  case Nil
  with assms show ?thesis by (simp add: update_agent_def)
next
  case (Cons OLD rest)
  from assms Cons have
    r: "agent_integers_in_range ((patch OLD)\<lparr>a_id := a_id OLD\<rparr>)"
    by (simp add: update_agent_def split: if_splits)
  from assms Cons r obtain NEW1 d1 where
    t: "track_agent_config_change hid now OLD ((patch OLD)\<lparr>a_id := a_id OLD\<rparr>) d = Inr (NEW1, d1)"
    by (auto simp add: update_agent_def split: sum.splits)
  from assms Cons r t have
    p: "agents_update_admin (profiles d) uid (NEW1\<lparr>a_updated_at := Some now\<rparr>)"
    by (simp add: update_agent_def Let_def split: if_splits)
  from assms Cons r t p have
    c: "agents_constraints (NEW1\<lparr>a_updated_at := Some now\<rparr>) (filter (\<lambda>a. a_id a \<noteq> aid) (agents d)) d1 = None"
    and e: "d' = d1\<lparr>agents := map (\<lambda>a. if a_id a = aid then NEW1\<lparr>a_updated_at := Some now\<rparr> else a) (agents d1)\<rparr>"
    by (simp_all add: update_agent_def Let_def split: option.splits)
  from Cons r t p c e show ?thesis by blast
qed

lemma update_own_profile_frame:
  assumes "update_own_profile uid now patch d = Inr d'"
  shows "agents d' = agents d \<and> sub_agents d' = sub_agents d
         \<and> agent_config_history d' = agent_config_history d"
proof (cases "filter (profiles_update_own uid) (profiles d)")
  case Nil
  with assms show ?thesis by (simp add: update_own_profile_def)
next
  case (Cons OLD rest)
  with assms show ?thesis
    by (auto simp add: update_own_profile_def Let_def split: if_splits)
qed

lemma insert_sub_agent_InrD:
  assumes "insert_sub_agent uid now i d = Inr d'"
  shows "d' = d\<lparr>sub_agents := sub_agents d @ [sub_agent_row now i]\<rparr>"
    and "sub_agents_insert_admin (profiles d) uid (sub_agent_row now i)"
    and "sub_agents_constraints (sub_agent_row now i) (sub_agents d) d = None"
    and "sub_agent_integers_in_range (sub_agent_row now i)"
  using assms unfolding insert_sub_agent_def Let_def
  by (simp_all split: if_splits option.splits)

lemma update_sub_agent_InrD:
  assumes "update_sub_agent uid now sid patch d = Inr d'"
  shows "(filter (\<lambda>s. sa_id s = sid \<and> sub_agents_update_admin (profiles d) uid s) (sub_agents d) = [] \<and> d' = d)
       \<or> (\<exists>OLD rest.
             filter (\<lambda>s. sa_id s = sid \<and> sub_agents_update_admin (profiles d) uid s) (sub_agents d) = OLD # rest
           \<and> sub_agent_integers_in_range ((patch OLD)\<lparr>sa_id := sa_id OLD, sa_updated_at := Some now\<rparr>)
           \<and> sub_agents_update_admin (profiles d) uid ((patch OLD)\<lparr>sa_id := sa_id OLD, sa_updated_at := Some now\<rparr>)
           \<and> sub_agents_constraints ((patch OLD)\<lparr>sa_id := sa_id OLD, sa_updated_at := Some now\<rparr>)
                 (filter (\<lambda>s. sa_id s \<noteq> sid) (sub_agents d)) d = None
           \<and> d' = d\<lparr>sub_agents := map (\<lambda>s. if sa_id s = sid
                          then (patch OLD)\<lparr>sa_id := sa_id OLD, sa_updated_at := Some now\<rparr> else s) (sub_agents d)\<rparr>)"
proof (cases "filter (\<lambda>s. sa_id s = sid \<and> sub_agents_update_admin (profiles d) uid s) (sub_agents d)")
  case Nil
  with assms show ?thesis by (simp add: update_sub_agent_def)
next
  case (Cons OLD rest)
  from assms Cons have
    r: "sub_agent_integers_in_range ((patch OLD)\<lparr>sa_id := sa_id OLD, sa_updated_at := Some now\<rparr>)"
    by (simp add: update_sub_agent_def Let_def split: if_splits)
  from assms Cons r have
    p: "sub_agents_update_admin (profiles d) uid ((patch OLD)\<lparr>sa_id := sa_id OLD, sa_updated_at := Some now\<rparr>)"
    by (simp add: update_sub_agent_def Let_def split: if_splits)
  from assms Cons r p have
    c: "sub_agents_constraints ((patch OLD)\<lparr>sa_id := sa_id OLD, sa_updated_at := Some now\<rparr>)
                 (filter (\<lambda>s. sa_id s \<noteq> sid) (sub_agents d)) d = None"
    and e: "d' = d\<lparr>sub_agents := map (\<lambda>s. if sa_id s = sid
                          then (patch OLD)\<lparr>sa_id := sa_id OLD, sa_updated_at := Some now\<rparr> else s) (sub_agents d)\<rparr>"
    by (simp_all add: update_sub_agent_def Let_def split: option.splits)
  from Cons r p c e show ?thesis by blast
qed

lemma update_sub_agent_history:
  assumes "update_sub_agent uid now sid patch d = Inr d'"
  shows "agent_config_history d' = agent_config_history d \<and> agents d' = agents d"
  using update_sub_agent_InrD[OF assms] by auto

lemma exec_neutral_frame:
  assumes "agent_neutral x" and "exec uid now x d = Inr d'"
  shows "agents d' = agents d \<and> agent_config_history d' = agent_config_history d"
proof (cases x)
  case (Signup u)
  with assms(2) show ?thesis by (auto split: sum.splits)
next
  case (InsertOrganization g)
  with assms(2) show ?thesis by (auto simp: insert_organization_def split: if_splits)
next
  case (UpdateOwnProfile patch)
  with assms(2) update_own_profile_frame show ?thesis by simp
next
  case (SoftDeleteUser t)
  with assms(2) show ?thesis by auto
next
  case (RestoreUser t)
  with assms(2) show ?thesis by auto
next
  case (InsertSubAgent i)
  with assms(2) insert_sub_agent_InrD(1)[of uid now i d d'] show ?thesis by simp
next
  case (UpdateSubAgent sid patch)
  with assms(2) update_sub_agent_history[of uid now sid patch d d'] show ?thesis by simp
next
  case (DeleteSubAgent sid)
  with assms(2) show ?thesis by (auto simp: delete_sub_agent_def split: if_splits)
qed (use assms(1) in simp_all)

subsection \<open>Evaluation of scripts\<close>

lemmas eval_defs =
  handle_new_user_def handle_new_user_row_def coalesce_def insert_organization_def
  update_own_profile_def profiles_update_own_def update_updated_at_column_def
  insert_agent_def agents_insert_admin_def get_my_org_def am_i_admin_def
  agents_constraints_def temperature_check_def max_tokens_check_def check_passes_def
  is_true_def sql_eq_def sql_and_def agent_integers_in_range_def integer_in_range_def

lemmas seed_defs =
  seed_script_def empty_db_def seeded_db_def admin_user_def member_user_def
  agent_copy_def agent_row_def seeded_agent_def seeded_admin_def seeded_member_def

lemmas update_defs =
  update_agent_def agents_update_admin_def track_agent_config_change_def changes_of_def
  jsonb_concat_def insert_history_row_def history_constraints_def coalesce0_def
  rename_by_admin_def audit_row_def prev_config_of_def


lemma seed_run: "run seed_script empty_db = Inr seeded_db"
  by (simp add: seed_defs eval_defs)

lemma seed_steps: "steps_ok trigger_only seed_script empty_db"
  by (simp add: seed_defs eval_defs)

lemma reachable_by_steps:
  "reachable_by P d \<Longrightarrow> steps_ok P xs d \<Longrightarrow> run xs d = Inr d' \<Longrightarrow> reachable_by P d'"
proof (induction xs arbitrary: d)
  case Nil
  then show ?case by simp
next
  case (Cons x xs)
  obtain uid now y where x: "x = (uid, now, y)" by (cases x) auto
  from Cons.prems(3) x obtain d1 where e: "exec uid now y d = Inr d1" and r: "run xs d1 = Inr d'"
    by (auto split: sum.splits)
  from Cons.prems(2) x e have p: "P d y" and s: "steps_ok P xs d1" by simp_all
  from reachable_by.step[OF Cons.prems(1) p e] have "reachable_by P d1" .
  from Cons.IH[OF this s r] show ?case .
qed

lemma rename_exec: "exec (Some 8) 4 (UpdateAgent 70 5 rename_by_admin) seeded_db = Inr renamed_db"
  by (simp add: renamed_db_def renamed_agent_def seeded_db_def seeded_agent_def seeded_admin_def
        seeded_member_def update_defs eval_defs)

lemma rename_ok: "trigger_only seeded_db (UpdateAgent 70 5 rename_by_admin)"
  by (simp add: seeded_db_def rename_by_admin_def)

lemma reachable_seeded_trigger_only: "reachable_by trigger_only seeded_db"
  by (rule reachable_by_steps[OF reachable_by.init seed_steps seed_run])

lemma reachable_renamed: "reachable_by trigger_only renamed_db"
  by (rule reachable_by.step[OF reachable_seeded_trigger_only rename_ok rename_exec])

lemma manual_insert:
  "exec (Some 8) 4 (InsertHistory manual_audit_row) seeded_db
     = Inr (seeded_db\<lparr>agent_config_history := [manual_audit_row]\<rparr>)"
  by (simp add: insert_history_def admins_can_insert_config_history_def insert_history_row_def
        history_constraints_def manual_audit_row_def seeded_db_def seeded_admin_def seeded_member_def
        seeded_agent_def)

lemma reachable_seeded: "reachable seeded_db"
  unfolding reachable_def
  by (rule reachable_by_steps[OF reachable_by.init _ seed_run]) (simp add: seed_defs eval_defs)

lemma seeded_row:
  "filter (\<lambda>a. a_id a = 5 \<and> agents_update_admin (profiles seeded_db) (Some 8) a) (agents seeded_db)
     = [seeded_agent]"
  by (simp add: seeded_db_def seeded_agent_def seeded_admin_def seeded_member_def
        agents_update_admin_def eval_defs)

lemma rename_update: "update_agent (Some 8) 4 70 5 rename_by_admin seeded_db = Inr renamed_db"
  using rename_exec by simp

lemmas sub_defs =
  insert_sub_agent_def update_sub_agent_def sub_agents_insert_admin_def sub_agents_update_admin_def
  is_org_admin_def sub_agents_constraints_def sub_agent_row_def hooks_writer_def rename_hooks_def
  hooks_db_def sub_agent_integers_in_range_def integer_in_range_def

lemma hooks_insert: "insert_sub_agent (Some 8) 5 hooks_writer seeded_db = Inr hooks_db"
  by (simp add: sub_defs seeded_db_def seeded_agent_def seeded_admin_def seeded_member_def
        temperature_check_def max_tokens_check_def check_passes_def is_true_def)

lemma hooks_rename:
  "update_sub_agent (Some 8) 6 50 rename_hooks hooks_db
     = Inr (hooks_db\<lparr>sub_agents := [(sub_agent_row 5 hooks_writer)\<lparr>sa_name := ''Hooks 2'',
                sa_modified_by := Some 8, sa_updated_at := Some 6\<rparr>]\<rparr>)"
  by (simp add: sub_defs seeded_db_def seeded_agent_def seeded_admin_def seeded_member_def
        temperature_check_def max_tokens_check_def check_passes_def is_true_def)

lemma version_write:
  "update_agent (Some 8) 4 70 5 write_version seeded_db
     = Inr (seeded_db\<lparr>agents := [seeded_agent\<lparr>a_version := Some 7, a_updated_at := Some 4\<rparr>]\<rparr>)"
  by (simp add: write_version_def seeded_db_def seeded_agent_def seeded_admin_def
        seeded_member_def update_defs eval_defs)

subsection \<open>Soft delete\<close>

lemma soft_delete_snd: "snd (soft_delete_user now t ps) = is_user_active t ps"
  by (simp add: soft_delete_user_def is_user_active_def)

lemma soft_delete_fst_Cons:
  "fst (soft_delete_user now t (p # ps)) =
     (if p_id p = t \<and> p_deleted_at p = None
      then update_updated_at_column now (p\<lparr>p_deleted_at := Some now\<rparr>) else p)
     # fst (soft_delete_user now t ps)"
  by (simp add: soft_delete_user_def)

lemma soft_delete_fst_Nil: "fst (soft_delete_user now t []) = []"
  by (simp add: soft_delete_user_def)

lemma soft_delete_noop: "\<not> is_user_active t ps \<Longrightarrow> fst (soft_delete_user now t ps) = ps"
proof (induction ps)
  case Nil
  show ?case by (simp add: soft_delete_fst_Nil)
next
  case (Cons p ps)
  from Cons.prems have a: "\<not> (p_id p = t \<and> p_deleted_at p = None)" and b: "\<not> is_user_active t ps"
    by (simp_all add: is_user_active_def)
  have "fst (soft_delete_user now t (p # ps)) = p # fst (soft_delete_user now t ps)"
    unfolding soft_delete_fst_Cons using a by (simp only: if_False)
  with Cons.IH[OF b] show ?case by simp
qed

lemma soft_delete_marks:
  assumes "q \<in> set (fst (soft_delete_user now t ps))" and "p_id q = t"
  shows "p_deleted_at q \<noteq> None"
proof -
  from assms(1) obtain p where
    q: "q = (if p_id p = t \<and> p_deleted_at p = None
             then update_updated_at_column now (p\<lparr>p_deleted_at := Some now\<rparr>) else p)"
    unfolding soft_delete_user_def fst_conv set_map by blast
  show ?thesis
  proof (cases "p_id p = t \<and> p_deleted_at p = None")
    case True
    with q have "q = update_updated_at_column now (p\<lparr>p_deleted_at := Some now\<rparr>)" by simp
    then show ?thesis by (simp add: update_updated_at_column_def)
  next
    case False
    have "q = p" unfolding q using False by (simp only: if_False)
    with False assms(2) show ?thesis by simp
  qed
qed

lemma soft_delete_inactive_after: "\<not> is_user_active t (fst (soft_delete_user now t ps))"
  unfolding is_user_active_def list_ex_iff using soft_delete_marks[of _ now t ps] by blast

lemma soft_delete_sets:
  "p \<in> set ps \<Longrightarrow> p_id p = t \<Longrightarrow> p_deleted_at p = None \<Longrightarrow>
     p\<lparr>p_deleted_at := Some now, p_updated_at := Some now\<rparr> \<in> set (fst (soft_delete_user now t ps))"
proof (induction ps)
  case Nil
  then show ?case by simp
next
  case (Cons x xs)
  show ?case
  proof (cases "p = x")
    case True
    with Cons.prems show ?thesis
      by (simp add: soft_delete_fst_Cons update_updated_at_column_def)
  next
    case False
    with Cons.prems have "p \<in> set xs" by simp
    from Cons.IH[OF this Cons.prems(2,3)] show ?thesis by (simp add: soft_delete_fst_Cons)
  qed
qed

lemma soft_delete_others:
  "filter (\<lambda>q. p_id q \<noteq> t) (fst (soft_delete_user now t ps)) = filter (\<lambda>q. p_id q \<noteq> t) ps"
  by (induction ps)
     (simp_all add: soft_delete_fst_Cons soft_delete_fst_Nil update_updated_at_column_def)

lemma restore_fst_Cons:
  "fst (restore_user now t (p # ps)) =
     (if p_id p = t \<and> p_deleted_at p \<noteq> None
      then update_updated_at_column now (p\<lparr>p_deleted_at := None\<rparr>) else p)
     # fst (restore_user now t ps)"
  by (simp add: restore_user_def)

lemma restore_fst_Nil: "fst (restore_user now t []) = []"
  by (simp add: restore_user_def)

lemma restore_noop:
  "\<not> list_ex (\<lambda>p. p_id p = t \<and> p_deleted_at p \<noteq> None) ps \<Longrightarrow> fst (restore_user now t ps) = ps"
proof (induction ps)
  case Nil
  show ?case by (simp add: restore_fst_Nil)
next
  case (Cons p ps)
  from Cons.prems have a: "\<not> (p_id p = t \<and> p_deleted_at p \<noteq> None)"
    and b: "\<not> list_ex (\<lambda>p. p_id p = t \<and> p_deleted_at p \<noteq> None) ps"
    by simp_all
  have "fst (restore_user now t (p # ps)) = p # fst (restore_user now t ps)"
    unfolding restore_fst_Cons using a by (simp only: if_False)
  with Cons.IH[OF b] show ?case by simp
qed

lemma restore_clears:
  assumes "q \<in> set (fst (restore_user now t ps))" and "p_id q = t"
  shows "p_deleted_at q = None"
proof -
  from assms(1) obtain p where
    q: "q = (if p_id p = t \<and> p_deleted_at p \<noteq> None
             then update_updated_at_column now (p\<lparr>p_deleted_at := None\<rparr>) else p)"
    unfolding restore_user_def fst_conv set_map by blast
  show ?thesis
  proof (cases "p_id p = t \<and> p_deleted_at p \<noteq> None")
    case True
    with q have "q = update_updated_at_column now (p\<lparr>p_deleted_at := None\<rparr>)" by simp
    then show ?thesis by (simp add: update_updated_at_column_def)
  next
    case False
    have "q = p" unfolding q using False by (simp only: if_False)
    with False assms(2) show ?thesis by simp
  qed
qed

lemma restore_others:
  "filter (\<lambda>q. p_id q \<noteq> t) (fst (restore_user now t ps)) = filter (\<lambda>q. p_id q \<noteq> t) ps"
  by (induction ps)
     (simp_all add: restore_fst_Cons restore_fst_Nil update_updated_at_column_def)

lemma restore_sets:
  "p \<in> set ps \<Longrightarrow> p_id p = t \<Longrightarrow> p_deleted_at p \<noteq> None \<Longrightarrow>
     p\<lparr>p_deleted_at := None, p_updated_at := Some now\<rparr> \<in> set (fst (restore_user now t ps))"
proof (induction ps)
  case Nil
  then show ?case by simp
next
  case (Cons x xs)
  show ?case
  proof (cases "p = x")
    case True
    from Cons.prems(2,3) True have c1: "p_id x = t" and c2: "p_deleted_at x \<noteq> None" by simp_all
    have "fst (restore_user now t (x # xs)) =
            update_updated_at_column now (x\<lparr>p_deleted_at := None\<rparr>) # fst (restore_user now t xs)"
      by (simp only: restore_fst_Cons c1 c2 simp_thms if_True)
    with True show ?thesis by (simp add: update_updated_at_column_def)
  next
    case False
    with Cons.prems have "p \<in> set xs" by simp
    from Cons.IH[OF this Cons.prems(2,3)] show ?thesis by (simp add: restore_fst_Cons)
  qed
qed

lemma restore_inactive_after:
  "\<not> list_ex (\<lambda>p. p_id p = t \<and> p_deleted_at p \<noteq> None) (fst (restore_user now t ps))"
proof
  assume "list_ex (\<lambda>p. p_id p = t \<and> p_deleted_at p \<noteq> None) (fst (restore_user now t ps))"
  then obtain q where q: "q \<in> set (fst (restore_user now t ps))" "p_id q = t" "p_deleted_at q \<noteq> None"
    unfolding list_ex_iff by blast
  from restore_clears[OF q(1) q(2)] q(3) show False by simp
qed

lemma soft_delete_columns:
  "map (\<lambda>p. p\<lparr>p_deleted_at := None, p_updated_at := None\<rparr>) (fst (soft_delete_user now t ps))
     = map (\<lambda>p. p\<lparr>p_deleted_at := None, p_updated_at := None\<rparr>) ps"
  by (induction ps)
     (simp_all add: soft_delete_fst_Cons soft_delete_fst_Nil update_updated_at_column_def)

lemma restore_columns:
  "map (\<lambda>p. p\<lparr>p_deleted_at := None, p_updated_at := None\<rparr>) (fst (restore_user now t ps))
     = map (\<lambda>p. p\<lparr>p_deleted_at := None, p_updated_at := None\<rparr>) ps"
  by (induction ps)
     (simp_all add: restore_fst_Cons restore_fst_Nil update_updated_at_column_def)

lemma restore_active_after:
  assumes "list_ex (\<lambda>p. p_id p = t) ps"
  shows "is_user_active t (fst (restore_user now t ps))"
proof -
  from assms obtain p where p: "p \<in> set ps" "p_id p = t" unfolding list_ex_iff by blast
  show ?thesis
  proof (cases "p_deleted_at p = None")
    case True
    have "p \<in> set (fst (restore_user now t ps))"
      using p True
    proof (induction ps)
      case Nil
      then show ?case by simp
    next
      case (Cons x xs)
      show ?case
      proof (cases "p = x")
        case True
        with Cons.prems(3) have "\<not> (p_id x = t \<and> p_deleted_at x \<noteq> None)" by simp
        then have "fst (restore_user now t (x # xs)) = x # fst (restore_user now t xs)"
          unfolding restore_fst_Cons by (simp only: if_False)
        with True show ?thesis by simp
      next
        case False
        with Cons.prems have "p \<in> set xs" by simp
        from Cons.IH[OF this Cons.prems(2,3)] show ?thesis by (simp add: restore_fst_Cons)
      qed
    qed
    with p(2) True show ?thesis unfolding is_user_active_def list_ex_iff by blast
  next
    case False
    from restore_sets[OF p(1) p(2) False, of now]
    have "p\<lparr>p_deleted_at := None, p_updated_at := Some now\<rparr> \<in> set (fst (restore_user now t ps))" .
    moreover have "p_id (p\<lparr>p_deleted_at := None, p_updated_at := Some now\<rparr>) = t"
      and "p_deleted_at (p\<lparr>p_deleted_at := None, p_updated_at := Some now\<rparr>) = None"
      using p(2) by simp_all
    ultimately show ?thesis unfolding is_user_active_def list_ex_iff by blast
  qed
qed

text \<open>
  Claim C7.  \<^verbatim>\<open>soft_delete_user\<close> returns whether the principal was active
  (\<^verbatim>\<open>FOUND\<close>); where it was not, or is unknown, nothing changes and the result is
  false; every active row of the principal gets \<^verbatim>\<open>deleted_at = NOW()\<close>, no row of
  the principal is active afterwards and no other principal's row is touched; a second
  call changes nothing and returns false.  \<^verbatim>\<open>restore_user\<close> returns whether the
  principal was deactivated; where it was not, nothing changes and the result is
  false; every deactivated row of the principal is kept, with \<^verbatim>\<open>deleted_at\<close> NULL,
  so that a known principal is active afterwards; no row of the principal has a
  \<^verbatim>\<open>deleted_at\<close> afterwards, no other principal's row is touched, and a second call
  changes nothing and returns false.  Neither function adds or removes a row or
  changes a column other than \<^verbatim>\<open>deleted_at\<close> and \<^verbatim>\<open>updated_at\<close>.
\<close>

theorem C7_soft_delete_and_restore:
  "snd (soft_delete_user now t ps) = is_user_active t ps
   \<and> (\<not> is_user_active t ps \<longrightarrow> soft_delete_user now t ps = (ps, False))
   \<and> (\<forall>p\<in>set ps. p_id p = t \<and> p_deleted_at p = None \<longrightarrow>
           p\<lparr>p_deleted_at := Some now, p_updated_at := Some now\<rparr> \<in> set (fst (soft_delete_user now t ps)))
   \<and> (\<forall>q\<in>set (fst (soft_delete_user now t ps)). p_id q = t \<longrightarrow> p_deleted_at q \<noteq> None)
   \<and> filter (\<lambda>q. p_id q \<noteq> t) (fst (soft_delete_user now t ps)) = filter (\<lambda>q. p_id q \<noteq> t) ps
   \<and> soft_delete_user now' t (fst (soft_delete_user now t ps)) = (fst (soft_delete_user now t ps), False)
   \<and> snd (restore_user now t ps) = list_ex (\<lambda>p. p_id p = t \<and> p_deleted_at p \<noteq> None) ps
   \<and> (\<not> list_ex (\<lambda>p. p_id p = t \<and> p_deleted_at p \<noteq> None) ps \<longrightarrow> restore_user now t ps = (ps, False))
   \<and> (\<forall>q\<in>set (fst (restore_user now t ps)). p_id q = t \<longrightarrow> p_deleted_at q = None)
   \<and> filter (\<lambda>q. p_id q \<noteq> t) (fst (restore_user now t ps)) = filter (\<lambda>q. p_id q \<noteq> t) ps
   \<and> (\<forall>p\<in>set ps. p_id p = t \<and> p_deleted_at p \<noteq> None \<longrightarrow>
           p\<lparr>p_deleted_at := None, p_updated_at := Some now\<rparr> \<in> set (fst (restore_user now t ps)))
   \<and> (list_ex (\<lambda>p. p_id p = t) ps \<longrightarrow> is_user_active t (fst (restore_user now t ps)))
   \<and> restore_user now' t (fst (restore_user now t ps)) = (fst (restore_user now t ps), False)
   \<and> map (\<lambda>p. p\<lparr>p_deleted_at := None, p_updated_at := None\<rparr>) (fst (soft_delete_user now t ps))
        = map (\<lambda>p. p\<lparr>p_deleted_at := None, p_updated_at := None\<rparr>) ps
   \<and> map (\<lambda>p. p\<lparr>p_deleted_at := None, p_updated_at := None\<rparr>) (fst (restore_user now t ps))
        = map (\<lambda>p. p\<lparr>p_deleted_at := None, p_updated_at := None\<rparr>) ps"
proof -
  have 1: "snd (soft_delete_user now t ps) = is_user_active t ps" by (rule soft_delete_snd)
  have 2: "\<not> is_user_active t ps \<longrightarrow> soft_delete_user now t ps = (ps, False)"
    using soft_delete_snd[of now t ps] soft_delete_noop[of t ps now] by (simp add: prod_eq_iff)
  have 3: "\<forall>p\<in>set ps. p_id p = t \<and> p_deleted_at p = None \<longrightarrow>
           p\<lparr>p_deleted_at := Some now, p_updated_at := Some now\<rparr> \<in> set (fst (soft_delete_user now t ps))"
    using soft_delete_sets[of _ ps t now] by blast
  have 4: "\<forall>q\<in>set (fst (soft_delete_user now t ps)). p_id q = t \<longrightarrow> p_deleted_at q \<noteq> None"
    using soft_delete_marks[of _ now t ps] by blast
  have 5: "filter (\<lambda>q. p_id q \<noteq> t) (fst (soft_delete_user now t ps)) = filter (\<lambda>q. p_id q \<noteq> t) ps"
    by (rule soft_delete_others)
  have 6: "soft_delete_user now' t (fst (soft_delete_user now t ps)) = (fst (soft_delete_user now t ps), False)"
    using soft_delete_inactive_after[of t now ps]
          soft_delete_snd[of now' t "fst (soft_delete_user now t ps)"]
          soft_delete_noop[of t "fst (soft_delete_user now t ps)" now']
    by (simp add: prod_eq_iff)
  have 7: "snd (restore_user now t ps) = list_ex (\<lambda>p. p_id p = t \<and> p_deleted_at p \<noteq> None) ps"
    by (simp add: restore_user_def)
  have 8: "\<not> list_ex (\<lambda>p. p_id p = t \<and> p_deleted_at p \<noteq> None) ps \<longrightarrow> restore_user now t ps = (ps, False)"
    using restore_noop[of t ps now] 7 by (simp add: prod_eq_iff)
  have 9: "\<forall>q\<in>set (fst (restore_user now t ps)). p_id q = t \<longrightarrow> p_deleted_at q = None"
    using restore_clears[of _ now t ps] by blast
  have 10: "filter (\<lambda>q. p_id q \<noteq> t) (fst (restore_user now t ps)) = filter (\<lambda>q. p_id q \<noteq> t) ps"
    by (rule restore_others)
  have 11: "\<forall>p\<in>set ps. p_id p = t \<and> p_deleted_at p \<noteq> None \<longrightarrow>
           p\<lparr>p_deleted_at := None, p_updated_at := Some now\<rparr> \<in> set (fst (restore_user now t ps))"
    using restore_sets[of _ ps t now] by blast
  have 12: "list_ex (\<lambda>p. p_id p = t) ps \<longrightarrow> is_user_active t (fst (restore_user now t ps))"
    using restore_active_after[of t ps now] by blast
  have s13: "snd (restore_user now' t (fst (restore_user now t ps))) = False"
    using restore_inactive_after[of t now ps] by (simp add: restore_user_def)
  have f13: "fst (restore_user now' t (fst (restore_user now t ps))) = fst (restore_user now t ps)"
    using restore_noop[OF restore_inactive_after[of t now ps], of now'] .
  have 13: "restore_user now' t (fst (restore_user now t ps)) = (fst (restore_user now t ps), False)"
    using s13 f13 by (simp add: prod_eq_iff)
  have 14: "map (\<lambda>p. p\<lparr>p_deleted_at := None, p_updated_at := None\<rparr>) (fst (soft_delete_user now t ps))
        = map (\<lambda>p. p\<lparr>p_deleted_at := None, p_updated_at := None\<rparr>) ps"
    by (rule soft_delete_columns)
  have 15: "map (\<lambda>p. p\<lparr>p_deleted_at := None, p_updated_at := None\<rparr>) (fst (restore_user now t ps))
        = map (\<lambda>p. p\<lparr>p_deleted_at := None, p_updated_at := None\<rparr>) ps"
    by (rule restore_columns)
  show ?thesis by (intro conjI 1 2 3 4 5 6 7 8 9 10 11 12 13 14 15)
qed

theorem C7_soft_delete_and_restore_witness:
  "is_user_active 9 [seeded_admin, seeded_member]
   \<and> soft_delete_user 4 9 [seeded_admin, seeded_member]
       = ([seeded_admin, seeded_member\<lparr>p_deleted_at := Some 4, p_updated_at := Some 4\<rparr>], True)
   \<and> soft_delete_user 6 9 (fst (soft_delete_user 4 9 [seeded_admin, seeded_member]))
       = (fst (soft_delete_user 4 9 [seeded_admin, seeded_member]), False)
   \<and> \<not> list_ex (\<lambda>p. p_id p = 9 \<and> p_deleted_at p \<noteq> None) [seeded_admin, seeded_member]
   \<and> restore_user 4 9 [seeded_admin, seeded_member] = ([seeded_admin, seeded_member], False)
   \<and> seeded_member\<lparr>p_deleted_at := Some 4, p_updated_at := Some 4\<rparr> \<in> set (profiles member_deleted_db)
   \<and> seeded_member\<lparr>p_deleted_at := None, p_updated_at := Some 6\<rparr>
       \<in> set (fst (restore_user 6 9 (profiles member_deleted_db)))
   \<and> list_ex (\<lambda>p. p_id p = 9) (profiles member_deleted_db)
   \<and> is_user_active 9 (fst (restore_user 6 9 (profiles member_deleted_db)))
   \<and> restore_user 6 9 (profiles member_deleted_db)
       = ([seeded_admin, seeded_member\<lparr>p_updated_at := Some 6\<rparr>], True)
   \<and> restore_user 7 9 (fst (restore_user 6 9 (profiles member_deleted_db)))
       = (fst (restore_user 6 9 (profiles member_deleted_db)), False)"
proof -
  have a: "is_user_active 9 [seeded_admin, seeded_member]"
    by (simp add: is_user_active_def seeded_admin_def seeded_member_def)
  have b: "soft_delete_user 4 9 [seeded_admin, seeded_member]
       = ([seeded_admin, seeded_member\<lparr>p_deleted_at := Some 4, p_updated_at := Some 4\<rparr>], True)"
    by (simp add: soft_delete_user_def update_updated_at_column_def seeded_admin_def seeded_member_def)
  have c: "\<not> list_ex (\<lambda>p. p_id p = 9 \<and> p_deleted_at p \<noteq> None) [seeded_admin, seeded_member]"
    by (simp add: seeded_admin_def seeded_member_def)
  note t = C7_soft_delete_and_restore[of 4 9 "[seeded_admin, seeded_member]" 6]
  from t have d: "soft_delete_user 6 9 (fst (soft_delete_user 4 9 [seeded_admin, seeded_member]))
       = (fst (soft_delete_user 4 9 [seeded_admin, seeded_member]), False)"
    by blast
  from t c have e: "restore_user 4 9 [seeded_admin, seeded_member] = ([seeded_admin, seeded_member], False)"
    by blast
  note u = C7_soft_delete_and_restore[of 6 9 "profiles member_deleted_db" 7]
  have f: "seeded_member\<lparr>p_deleted_at := Some 4, p_updated_at := Some 4\<rparr> \<in> set (profiles member_deleted_db)"
    by (simp add: member_deleted_db_def)
  have f1: "p_id (seeded_member\<lparr>p_deleted_at := Some 4, p_updated_at := Some 4\<rparr>) = 9"
    and f2: "p_deleted_at (seeded_member\<lparr>p_deleted_at := Some 4, p_updated_at := Some 4\<rparr>) \<noteq> None"
    by (simp_all add: seeded_member_def)
  from u f f1 f2
  have "(seeded_member\<lparr>p_deleted_at := Some 4, p_updated_at := Some 4\<rparr>)\<lparr>p_deleted_at := None, p_updated_at := Some 6\<rparr>
       \<in> set (fst (restore_user 6 9 (profiles member_deleted_db)))" by blast
  then have g: "seeded_member\<lparr>p_deleted_at := None, p_updated_at := Some 6\<rparr>
       \<in> set (fst (restore_user 6 9 (profiles member_deleted_db)))" by simp
  have h: "list_ex (\<lambda>p. p_id p = 9) (profiles member_deleted_db)"
    by (simp add: member_deleted_db_def seeded_member_def)
  from u h have i: "is_user_active 9 (fst (restore_user 6 9 (profiles member_deleted_db)))" by blast
  have j: "restore_user 6 9 (profiles member_deleted_db)
       = ([seeded_admin, seeded_member\<lparr>p_updated_at := Some 6\<rparr>], True)"
    by (simp add: restore_user_def update_updated_at_column_def member_deleted_db_def
          seeded_admin_def seeded_member_def)
  from u have k: "restore_user 7 9 (fst (restore_user 6 9 (profiles member_deleted_db)))
       = (fst (restore_user 6 9 (profiles member_deleted_db)), False)" by blast
  show ?thesis by (intro conjI a b c d e f g h i j k)
qed

subsection \<open>Sign-up\<close>

text \<open>
  Claim C10.  When \<^verbatim>\<open>handle_new_user\<close> succeeds it adds exactly one profile: that of
  the new user, with role \<^verbatim>\<open>user\<close>, no organization and a NULL \<^verbatim>\<open>deleted_at\<close>; the
  admin rows of the table are the same as before.
\<close>

theorem C10_signup_creates_member:
  "handle_new_user now u ps = Inr ps' \<Longrightarrow>
     (\<exists>r. ps' = ps @ [r] \<and> p_id r = u_id u \<and> p_role r = role_user
             \<and> p_organization_id r = None \<and> p_deleted_at r = None)
     \<and> filter (\<lambda>p. p_role p = role_admin) ps' = filter (\<lambda>p. p_role p = role_admin) ps"
proof -
  assume a: "handle_new_user now u ps = Inr ps'"
  then have e: "ps' = ps @ [handle_new_user_row now u]"
    by (simp add: handle_new_user_def split: if_splits)
  have r: "p_id (handle_new_user_row now u) = u_id u"
          "p_role (handle_new_user_row now u) = role_user"
          "p_organization_id (handle_new_user_row now u) = None"
          "p_deleted_at (handle_new_user_row now u) = None"
    by (simp_all add: handle_new_user_row_def)
  from e r show ?thesis by simp
qed

theorem C10_signup_creates_member_witness:
  "handle_new_user 1 member_user [seeded_admin] = Inr [seeded_admin, handle_new_user_row 1 member_user]
   \<and> (\<exists>r. [seeded_admin, handle_new_user_row 1 member_user] = [seeded_admin] @ [r]
          \<and> p_id r = u_id member_user \<and> p_role r = role_user
          \<and> p_organization_id r = None \<and> p_deleted_at r = None)
   \<and> filter (\<lambda>p. p_role p = role_admin) [seeded_admin, handle_new_user_row 1 member_user]
       = filter (\<lambda>p. p_role p = role_admin) [seeded_admin]"
proof -
  have h: "handle_new_user 1 member_user [seeded_admin]
             = Inr [seeded_admin, handle_new_user_row 1 member_user]"
    by (simp add: handle_new_user_def member_user_def seeded_admin_def)
  from C10_signup_creates_member[OF h] h show ?thesis by blast
qed

subsection \<open>Tenant isolation of reads\<close>

lemma filter_pk_single:
  assumes "distinct (map f xs)" and "x \<in> set xs"
  shows "filter (\<lambda>y. f y = f x) xs = [x]"
  using assms
proof (induction xs)
  case Nil
  then show ?case by simp
next
  case (Cons y ys)
  show ?case
  proof (cases "y = x")
    case True
    from Cons.prems(1) have "f x \<notin> f ` set ys" using True by simp
    then have "\<forall>z\<in>set ys. f z \<noteq> f x" by (metis imageI)
    then have "filter (\<lambda>z. f z = f x) ys = []" by (simp add: filter_empty_conv)
    with True show ?thesis by simp
  next
    case False
    with Cons.prems have xin: "x \<in> set ys" by simp
    from Cons.prems(1) have "f y \<notin> f ` set ys" by simp
    with xin have "f y \<noteq> f x" by force
    with Cons.IH[OF _ xin] Cons.prems(1) show ?thesis by simp
  qed
qed

lemma get_my_org_of_profile:
  assumes "distinct (map p_id ps)" and "P \<in> set ps"
  shows "get_my_org ps (Some (p_id P)) = p_organization_id P"
proof -
  have "filter (\<lambda>p. Some (p_id p) = Some (p_id P)) ps = filter (\<lambda>p. p_id p = p_id P) ps"
    by simp
  also have "\<dots> = [P]" by (rule filter_pk_single[OF assms])
  finally show ?thesis by (simp add: get_my_org_def)
qed

lemma agents_select_tenant:
  assumes "distinct (map p_id ps)" and "P \<in> set ps"
  shows "agents_select ps (Some (p_id P)) a = (p_organization_id P = Some (a_organization_id a))"
  unfolding agents_select_def get_my_org_of_profile[OF assms]
  by (cases "p_organization_id P") (auto simp: is_true_def sql_eq_def)

lemma sub_agents_select_tenant:
  assumes "distinct (map p_id ps)" and "P \<in> set ps"
  shows "sub_agents_select_org ps (Some (p_id P)) s = (p_organization_id P = Some (sa_organization_id s))"
proof -
  have "\<And>q. q \<in> set ps \<Longrightarrow> p_id q = p_id P \<Longrightarrow> q = P"
    using assms by (meson distinct_map inj_onD)
  then show ?thesis
    unfolding sub_agents_select_org_def list_ex_iff using assms(2) by auto
qed

text \<open>
  Claim C5.  Let the principal \<open>P\<close> belong to tenant \<open>T2\<close> and let \<open>T1\<close> be another
  tenant (profiles have their primary key).  Then no SELECT on \<^verbatim>\<open>agents\<close> as \<open>P\<close>
  returns an agent of \<open>T1\<close>, whatever its WHERE clause, no read by identifier returns
  one, and the read of such an agent by its identifier is NotFound; the same holds
  for \<^verbatim>\<open>sub_agents\<close>.  Nothing is assumed about the role of \<open>P\<close>.
\<close>

theorem C5_cross_tenant_get_not_found:
  assumes pk: "distinct (map p_id (profiles d))"
    and P: "P \<in> set (profiles d)"
    and T2: "p_organization_id P = Some T2"
    and ne: "T2 \<noteq> T1"
  shows "(\<forall>E\<in>set (agents d). a_organization_id E = T1 \<longrightarrow>
            E \<notin> set (select_agents d (Some (p_id P)) wh)
            \<and> get_agent d (Some (p_id P)) aid \<noteq> Inr E
            \<and> (distinct (map a_id (agents d)) \<longrightarrow> get_agent d (Some (p_id P)) (a_id E) = Inl NotFound))
       \<and> (\<forall>S\<in>set (sub_agents d). sa_organization_id S = T1 \<longrightarrow>
            S \<notin> set (select_sub_agents d (Some (p_id P)) wh')
            \<and> get_sub_agent d (Some (p_id P)) sid \<noteq> Inr S
            \<and> (distinct (map sa_id (sub_agents d)) \<longrightarrow> get_sub_agent d (Some (p_id P)) (sa_id S) = Inl NotFound))"
proof (intro conjI ballI impI)
  fix E assume E: "E \<in> set (agents d)" and o: "a_organization_id E = T1"
  have hidden: "\<not> agents_select (profiles d) (Some (p_id P)) E"
    using agents_select_tenant[OF pk P, of E] T2 ne o by simp
  then show "E \<notin> set (select_agents d (Some (p_id P)) wh)"
    by (simp add: select_agents_def)
  have notin: "\<And>w. E \<notin> set (select_agents d (Some (p_id P)) w)"
    using hidden by (simp add: select_agents_def)
  show "get_agent d (Some (p_id P)) aid \<noteq> Inr E"
  proof
    assume g: "get_agent d (Some (p_id P)) aid = Inr E"
    then obtain rest where "select_agents d (Some (p_id P)) (\<lambda>a. a_id a = aid) = E # rest"
      by (auto simp: get_agent_def split: list.splits)
    then have "E \<in> set (select_agents d (Some (p_id P)) (\<lambda>a. a_id a = aid))" by simp
    with notin show False by blast
  qed
  assume da: "distinct (map a_id (agents d))"
  have "select_agents d (Some (p_id P)) (\<lambda>a. a_id a = a_id E)
          = filter (agents_select (profiles d) (Some (p_id P))) (filter (\<lambda>a. a_id a = a_id E) (agents d))"
    by (simp add: select_agents_def conj_commute)
  also have "\<dots> = []" unfolding filter_pk_single[OF da E] using hidden by simp
  finally show "get_agent d (Some (p_id P)) (a_id E) = Inl NotFound"
    by (simp add: get_agent_def)
next
  fix S assume S: "S \<in> set (sub_agents d)" and o: "sa_organization_id S = T1"
  have hidden: "\<not> sub_agents_select_org (profiles d) (Some (p_id P)) S"
    using sub_agents_select_tenant[OF pk P, of S] T2 ne o by simp
  then show "S \<notin> set (select_sub_agents d (Some (p_id P)) wh')"
    by (simp add: select_sub_agents_def)
  have notin: "\<And>w. S \<notin> set (select_sub_agents d (Some (p_id P)) w)"
    using hidden by (simp add: select_sub_agents_def)
  show "get_sub_agent d (Some (p_id P)) sid \<noteq> Inr S"
  proof
    assume g: "get_sub_agent d (Some (p_id P)) sid = Inr S"
    then obtain rest where "select_sub_agents d (Some (p_id P)) (\<lambda>s. sa_id s = sid) = S # rest"
      by (auto simp: get_sub_agent_def split: list.splits)
    then have "S \<in> set (select_sub_agents d (Some (p_id P)) (\<lambda>s. sa_id s = sid))" by simp
    with notin show False by blast
  qed
  assume da: "distinct (map sa_id (sub_agents d))"
  have "select_sub_agents d (Some (p_id P)) (\<lambda>s. sa_id s = sa_id S)
          = filter (sub_agents_select_org (profiles d) (Some (p_id P))) (filter (\<lambda>s. sa_id s = sa_id S) (sub_agents d))"
    by (simp add: select_sub_agents_def conj_commute)
  also have "\<dots> = []" unfolding filter_pk_single[OF da S] using hidden by simp
  finally show "get_sub_agent d (Some (p_id P)) (sa_id S) = Inl NotFound"
    by (simp add: get_sub_agent_def)
qed

theorem C5_cross_tenant_get_not_found_witness:
  "distinct (map p_id (profiles (seeded_db\<lparr>profiles := [seeded_admin\<lparr>p_organization_id := Some 2\<rparr>]\<rparr>)))
   \<and> seeded_admin\<lparr>p_organization_id := Some 2\<rparr>
        \<in> set (profiles (seeded_db\<lparr>profiles := [seeded_admin\<lparr>p_organization_id := Some 2\<rparr>]\<rparr>))
   \<and> p_organization_id (seeded_admin\<lparr>p_organization_id := Some 2\<rparr>) = Some 2
   \<and> (2::nat) \<noteq> 1
   \<and> seeded_agent \<in> set (agents (seeded_db\<lparr>profiles := [seeded_admin\<lparr>p_organization_id := Some 2\<rparr>]\<rparr>))
   \<and> a_organization_id seeded_agent = 1
   \<and> p_role (seeded_admin\<lparr>p_organization_id := Some 2\<rparr>) = role_admin
   \<and> distinct (map a_id (agents (seeded_db\<lparr>profiles := [seeded_admin\<lparr>p_organization_id := Some 2\<rparr>]\<rparr>)))
   \<and> get_agent (seeded_db\<lparr>profiles := [seeded_admin\<lparr>p_organization_id := Some 2\<rparr>]\<rparr>) (Some 8) 5
       = Inl NotFound"
proof -
  let ?P = "seeded_admin\<lparr>p_organization_id := Some 2\<rparr>"
  let ?d = "seeded_db\<lparr>profiles := [?P]\<rparr>"
  have 1: "distinct (map p_id (profiles ?d))" by simp
  have 2: "?P \<in> set (profiles ?d)" by simp
  have 3: "p_organization_id ?P = Some 2" by simp
  have 4: "(2::nat) \<noteq> 1" by simp
  have 5: "seeded_agent \<in> set (agents ?d)" by (simp add: seeded_db_def)
  have 6: "a_organization_id seeded_agent = 1" by (simp add: seeded_agent_def)
  have 7: "p_role ?P = role_admin" by (simp add: seeded_admin_def)
  have 8: "distinct (map a_id (agents ?d))" by (simp add: seeded_db_def)
  have 9: "p_id ?P = 8" "a_id seeded_agent = 5" by (simp_all add: seeded_admin_def seeded_agent_def)
  from C5_cross_tenant_get_not_found[OF 1 2 3 4, of "\<lambda>_. True" 5 "\<lambda>_. True" 0] 5 6 8
  have "get_agent ?d (Some (p_id ?P)) (a_id seeded_agent) = Inl NotFound" by blast
  then have 10: "get_agent ?d (Some 8) 5 = Inl NotFound" unfolding 9 .
  show ?thesis by (intro conjI 1 2 3 4 5 6 7 8 10)
qed

subsection \<open>Reconciliation of a subscriber's view\<close>

lemma find_None_list_ex: "(find P xs = None) = (\<not> list_ex P xs)"
  by (auto simp add: find_None_iff list_ex_iff)

text \<open>
  Claim C6.  For a subscriber with \<^verbatim>\<open>activeOnly\<close>: an update to an entity that is now
  inactive is \<open>Remove\<close> of its identifier, and the view no longer holds it; an update
  to an entity that is now active is \<open>Upsert\<close> of the entity, the view holds it, and
  holds nothing else under its identifier; a delete is \<open>Remove\<close>, with or without
  \<^verbatim>\<open>activeOnly\<close>.
\<close>

theorem C6_active_only_reconciliation:
  "(\<not> truthy (a_is_active new) \<longrightarrow>
      on_postgres_changes True (UPDATE old new) prev = apply_reconciliation (Remove (a_id new)) prev
      \<and> a_id new \<notin> set (map a_id (on_postgres_changes True (UPDATE old new) prev)))
   \<and> (truthy (a_is_active new) \<longrightarrow>
      on_postgres_changes True (UPDATE old new) prev = apply_reconciliation (Upsert new) prev
      \<and> new \<in> set (on_postgres_changes True (UPDATE old new) prev)
      \<and> (\<forall>a\<in>set (on_postgres_changes True (UPDATE old new) prev). a_id a = a_id new \<longrightarrow> a = new))
   \<and> on_postgres_changes activeOnly (DELETE old) prev = apply_reconciliation (Remove (a_id old)) prev
   \<and> a_id old \<notin> set (map a_id (on_postgres_changes activeOnly (DELETE old) prev))"
proof (intro conjI impI)
  assume n: "\<not> truthy (a_is_active new)"
  then show "on_postgres_changes True (UPDATE old new) prev = apply_reconciliation (Remove (a_id new)) prev"
    by simp
  from n show "a_id new \<notin> set (map a_id (on_postgres_changes True (UPDATE old new) prev))"
    by auto
next
  assume t: "truthy (a_is_active new)"
  then show e: "on_postgres_changes True (UPDATE old new) prev = apply_reconciliation (Upsert new) prev"
    by (simp add: find_None_list_ex)
  show "new \<in> set (on_postgres_changes True (UPDATE old new) prev)"
    unfolding e by (auto simp: list_ex_iff)
  show "\<forall>a\<in>set (on_postgres_changes True (UPDATE old new) prev). a_id a = a_id new \<longrightarrow> a = new"
    unfolding e by (auto simp: list_ex_iff)
next
  show "on_postgres_changes activeOnly (DELETE old) prev = apply_reconciliation (Remove (a_id old)) prev"
    by simp
  show "a_id old \<notin> set (map a_id (on_postgres_changes activeOnly (DELETE old) prev))"
    by auto
qed

theorem C6_active_only_reconciliation_witness:
  "\<not> truthy (a_is_active (seeded_agent\<lparr>a_is_active := Some False\<rparr>))
   \<and> on_postgres_changes True (UPDATE seeded_agent (seeded_agent\<lparr>a_is_active := Some False\<rparr>)) [seeded_agent]
       = apply_reconciliation (Remove 5) [seeded_agent]
   \<and> apply_reconciliation (Remove 5) [seeded_agent] = []
   \<and> truthy (a_is_active seeded_agent)
   \<and> on_postgres_changes True (UPDATE (seeded_agent\<lparr>a_is_active := Some False\<rparr>) seeded_agent) []
       = apply_reconciliation (Upsert seeded_agent) []
   \<and> apply_reconciliation (Upsert seeded_agent) [] = [seeded_agent]"
proof -
  let ?off = "seeded_agent\<lparr>a_is_active := Some False\<rparr>"
  have 1: "\<not> truthy (a_is_active ?off)" by (simp add: truthy_def)
  have 2: "truthy (a_is_active seeded_agent)" by (simp add: truthy_def seeded_agent_def)
  have 3: "a_id ?off = 5" by (simp add: seeded_agent_def)
  from C6_active_only_reconciliation[of ?off seeded_agent "[seeded_agent]" True] 1
  have 4: "on_postgres_changes True (UPDATE seeded_agent ?off) [seeded_agent]
             = apply_reconciliation (Remove 5) [seeded_agent]"
    unfolding 3 by blast
  from C6_active_only_reconciliation[of seeded_agent ?off "[]" True] 2
  have 5: "on_postgres_changes True (UPDATE ?off seeded_agent) []
             = apply_reconciliation (Upsert seeded_agent) []"
    by blast
  have 6: "apply_reconciliation (Remove 5) [seeded_agent] = []" by (simp add: seeded_agent_def)
  have 7: "apply_reconciliation (Upsert seeded_agent) [] = [seeded_agent]" by simp
  show ?thesis by (intro conjI 1 2 4 5 6 7)
qed

subsection \<open>Reads and writes of a deactivated principal\<close>

text \<open>
  Claim C1.  The policy \<^verbatim>\<open>agents_select\<close> resolves the caller's tenant with
  \<^verbatim>\<open>get_my_org\<close>, which does not look at \<^verbatim>\<open>deleted_at\<close>: after the demo data is set
  up and the member \<^verbatim>\<open>user@2b.com\<close> is soft-deleted, the member is not active, and
  its read of the agent "Agent Copy" of its tenant still returns the agent.  The
  policy \<^verbatim>\<open>sub_agents_insert_admin\<close> asks \<^verbatim>\<open>is_org_admin\<close>, which does not look at
  \<^verbatim>\<open>deleted_at\<close> either: the soft-deleted administrator still creates a sub-agent.
\<close>

theorem C1_deactivated_principal_still_authorized:
  "run (seed_script @ [(Some 8, 4, SoftDeleteUser 9)]) empty_db = Inr member_deleted_db
   \<and> is_user_active 9 (profiles member_deleted_db) = False
   \<and> get_agent member_deleted_db (Some 9) 5 = Inr seeded_agent
   \<and> run (seed_script @ [(Some 8, 4, SoftDeleteUser 8)]) empty_db = Inr admin_deleted_db
   \<and> is_user_active 8 (profiles admin_deleted_db) = False
   \<and> insert_sub_agent (Some 8) 5 hooks_writer admin_deleted_db
       = Inr (admin_deleted_db\<lparr>sub_agents := [sub_agent_row 5 hooks_writer]\<rparr>)"
proof -
  have 1: "run (seed_script @ [(Some 8, 4, SoftDeleteUser 9)]) empty_db = Inr member_deleted_db"
    by (simp add: member_deleted_db_def seed_defs eval_defs soft_delete_user_def)
  have 2: "is_user_active 9 (profiles member_deleted_db) = False"
    by (simp add: member_deleted_db_def is_user_active_def seeded_admin_def seeded_member_def)
  have 3: "get_agent member_deleted_db (Some 9) 5 = Inr seeded_agent"
    by (simp add: member_deleted_db_def seed_defs eval_defs get_agent_def select_agents_def
          agents_select_def)
  have 4: "run (seed_script @ [(Some 8, 4, SoftDeleteUser 8)]) empty_db = Inr admin_deleted_db"
    by (simp add: admin_deleted_db_def seed_defs eval_defs soft_delete_user_def)
  have 5: "is_user_active 8 (profiles admin_deleted_db) = False"
    by (simp add: admin_deleted_db_def is_user_active_def seeded_admin_def seeded_member_def)
  have 6: "insert_sub_agent (Some 8) 5 hooks_writer admin_deleted_db
       = Inr (admin_deleted_db\<lparr>sub_agents := [sub_agent_row 5 hooks_writer]\<rparr>)"
    by (simp add: admin_deleted_db_def sub_defs seeded_db_def seeded_agent_def seeded_admin_def
          seeded_member_def temperature_check_def max_tokens_check_def check_passes_def is_true_def)
  show ?thesis by (intro conjI 1 2 3 4 5 6)
qed

subsection \<open>Version counter and audit trail\<close>

lemma audit_count_append:
  "agent_config_history d' = agent_config_history d @ hs \<Longrightarrow>
   audit_count d' x = audit_count d x + int (length (filter (\<lambda>h. h_agent_id h = x) hs))"
  by (simp add: audit_count_def)

lemma audit_count_cong:
  "agent_config_history d' = agent_config_history d \<Longrightarrow> audit_count d' x = audit_count d x"
  by (simp add: audit_count_def)

lemma version_audit_inv_cong:
  assumes "agents d' = agents d" and "agent_config_history d' = agent_config_history d"
  shows "version_audit_inv d' = version_audit_inv d"
  unfolding version_audit_inv_def assms audit_count_cong[OF assms(2)] ..

lemma inv_insert:
  assumes inv: "version_audit_inv d"
    and ag: "agents d' = agents d @ [r]"
    and hi: "agent_config_history d' = agent_config_history d"
    and fresh: "a_id r \<notin> set (map a_id (agents d))"
    and v1: "a_version r = Some 1"
  shows "version_audit_inv d'"
proof -
  from inv have dist: "distinct (map a_id (agents d))"
    and fk: "\<forall>h\<in>set (agent_config_history d). h_agent_id h \<in> set (map a_id (agents d))"
    and ver: "\<forall>a\<in>set (agents d). a_version a = Some (audit_count d (a_id a) + 1)"
    by (simp_all add: version_audit_inv_def list_all_iff)
  from fk fresh have "\<forall>h\<in>set (agent_config_history d). h_agent_id h \<noteq> a_id r" by metis
  then have "filter (\<lambda>h. h_agent_id h = a_id r) (agent_config_history d) = []"
    by (simp add: filter_empty_conv)
  then have zero: "audit_count d (a_id r) = 0" by (simp add: audit_count_def)
  have 1: "distinct (map a_id (agents d'))" using dist fresh ag by simp
  have 2: "\<forall>h\<in>set (agent_config_history d'). h_agent_id h \<in> set (map a_id (agents d'))"
    using fk ag hi by auto
  have 3: "\<forall>a\<in>set (agents d'). a_version a = Some (audit_count d' (a_id a) + 1)"
    using ver v1 zero ag audit_count_cong[OF hi] by auto
  from 1 2 3 show ?thesis by (simp add: version_audit_inv_def list_all_iff)
qed

lemma inv_update:
  assumes inv: "version_audit_inv d"
    and ag: "agents d' = map (\<lambda>a. if a_id a = aid then NEW else a) (agents d)"
    and idn: "a_id NEW = aid"
    and hi: "agent_config_history d' = agent_config_history d @ hs"
    and hs: "\<forall>h\<in>set hs. h_agent_id h = aid"
    and ex: "aid \<in> set (map a_id (agents d))"
    and ver: "a_version NEW = Some (audit_count d aid + int (length hs) + 1)"
  shows "version_audit_inv d'"
proof -
  from inv have dist: "distinct (map a_id (agents d))"
    and fk: "\<forall>h\<in>set (agent_config_history d). h_agent_id h \<in> set (map a_id (agents d))"
    and vr: "\<forall>a\<in>set (agents d). a_version a = Some (audit_count d (a_id a) + 1)"
    by (simp_all add: version_audit_inv_def list_all_iff)
  have ids: "map a_id (agents d') = map a_id (agents d)"
    unfolding ag using idn by (induction "agents d") auto
  have fa: "filter (\<lambda>h. h_agent_id h = aid) hs = hs" using hs by (simp add: filter_id_conv)
  have fo: "\<And>x. x \<noteq> aid \<Longrightarrow> filter (\<lambda>h. h_agent_id h = x) hs = []"
    using hs by (auto simp: filter_empty_conv)
  have ca: "audit_count d' aid = audit_count d aid + int (length hs)"
    using audit_count_append[OF hi, of aid] fa by simp
  have co: "\<And>x. x \<noteq> aid \<Longrightarrow> audit_count d' x = audit_count d x"
    using audit_count_append[OF hi] fo by simp
  have 1: "distinct (map a_id (agents d'))" using dist ids by simp
  have 2: "\<forall>h\<in>set (agent_config_history d'). h_agent_id h \<in> set (map a_id (agents d'))"
    unfolding ids hi using fk hs ex by auto
  have 3: "\<forall>a\<in>set (agents d'). a_version a = Some (audit_count d' (a_id a) + 1)"
  proof
    fix a assume "a \<in> set (agents d')"
    then obtain b where b: "b \<in> set (agents d)" and a: "a = (if a_id b = aid then NEW else b)"
      unfolding ag by auto
    show "a_version a = Some (audit_count d' (a_id a) + 1)"
    proof (cases "a_id b = aid")
      case True
      with a have "a = NEW" by simp
      with ver ca idn show ?thesis by simp
    next
      case False
      with a have "a = b" by simp
      with vr b co[OF False] show ?thesis by simp
    qed
  qed
  from 1 2 3 show ?thesis by (simp add: version_audit_inv_def list_all_iff)
qed

lemma inv_delete:
  assumes inv: "version_audit_inv d"
    and ag: "agents d' = filter (\<lambda>a. a_id a \<noteq> aid) (agents d)"
    and hi: "agent_config_history d' = filter (\<lambda>h. h_agent_id h \<noteq> aid) (agent_config_history d)"
  shows "version_audit_inv d'"
proof -
  from inv have dist: "distinct (map a_id (agents d))"
    and fk: "\<forall>h\<in>set (agent_config_history d). h_agent_id h \<in> set (map a_id (agents d))"
    and vr: "\<forall>a\<in>set (agents d). a_version a = Some (audit_count d (a_id a) + 1)"
    by (simp_all add: version_audit_inv_def list_all_iff)
  have co: "\<And>x. x \<noteq> aid \<Longrightarrow> audit_count d' x = audit_count d x"
  proof -
    fix x :: uuid assume x: "x \<noteq> aid"
    have "filter (\<lambda>h. h_agent_id h = x) (filter (\<lambda>h. h_agent_id h \<noteq> aid) (agent_config_history d))
            = filter (\<lambda>h. h_agent_id h = x) (agent_config_history d)"
      using x by (auto intro: filter_cong)
    then show "audit_count d' x = audit_count d x" by (simp add: audit_count_def hi)
  qed
  have 1: "distinct (map a_id (agents d'))" unfolding ag using dist by (simp add: distinct_map_filter)
  have 2: "\<forall>h\<in>set (agent_config_history d'). h_agent_id h \<in> set (map a_id (agents d'))"
    unfolding ag hi using fk by auto
  have 3: "\<forall>a\<in>set (agents d'). a_version a = Some (audit_count d' (a_id a) + 1)"
    unfolding ag using vr co by auto
  from 1 2 3 show ?thesis by (simp add: version_audit_inv_def list_all_iff)
qed

lemma filter_Cons_mem: "filter P xs = y # ys \<Longrightarrow> y \<in> set xs \<and> P y"
proof -
  assume a: "filter P xs = y # ys"
  have "y \<in> set (filter P xs)" unfolding a by simp
  then show ?thesis by simp
qed

lemma inv_step_update:
  assumes inv: "version_audit_inv d"
    and tr: "trigger_only d (UpdateAgent hid aid patch)"
    and ex: "update_agent uid now hid aid patch d = Inr d'"
  shows "version_audit_inv d'"
proof -
  from update_agent_InrD[OF ex]
  consider (none) "d' = d"
    | (row) OLD rest NEW1 d1 where
        "filter (\<lambda>a. a_id a = aid \<and> agents_update_admin (profiles d) uid a) (agents d) = OLD # rest"
        "track_agent_config_change hid now OLD ((patch OLD)\<lparr>a_id := a_id OLD\<rparr>) d = Inr (NEW1, d1)"
        "d' = d1\<lparr>agents := map (\<lambda>a. if a_id a = aid then NEW1\<lparr>a_updated_at := Some now\<rparr> else a) (agents d1)\<rparr>"
    by blast
  then show ?thesis
  proof cases
    case none
    with inv show ?thesis by simp
  next
    case row
    let ?patched = "(patch OLD)\<lparr>a_id := a_id OLD\<rparr>"
    let ?NEW = "NEW1\<lparr>a_updated_at := Some now\<rparr>"
    from filter_Cons_mem[OF row(1)] have oin: "OLD \<in> set (agents d)" and oid: "a_id OLD = aid"
      by simp_all
    from inv oin have vo: "a_version OLD = Some (audit_count d aid + 1)"
      unfolding oid[symmetric] by (simp add: version_audit_inv_def list_all_iff)
    from tr oin oid have keep: "a_version (patch OLD) = a_version OLD"
      by (auto simp: list_all_iff)
    have exid: "aid \<in> set (map a_id (agents d))" using oin oid by force
    from track_InrD[OF row(2)]
    consider (same) "NEW1 = ?patched" "d1 = d"
      | (bump) m where
          "d1 = d\<lparr>agent_config_history := agent_config_history d @ [audit_row hid now OLD ?patched m]\<rparr>"
          "NEW1 = ?patched\<lparr>a_version := Some (coalesce0 (a_version OLD) + 1)\<rparr>"
      by blast
    then show ?thesis
    proof cases
      case same
      have ag: "agents d' = map (\<lambda>a. if a_id a = aid then ?NEW else a) (agents d)"
        using row(3) same(2) by simp
      have hi: "agent_config_history d' = agent_config_history d @ []" using row(3) same(2) by simp
      have idn: "a_id ?NEW = aid" using same(1) oid by simp
      have ver: "a_version ?NEW = Some (audit_count d aid + int (length ([]::history list)) + 1)"
        using same(1) keep vo by simp
      show ?thesis by (rule inv_update[OF inv ag idn hi _ exid ver]) simp
    next
      case bump
      have ag: "agents d' = map (\<lambda>a. if a_id a = aid then ?NEW else a) (agents d)"
        using row(3) bump(1) by simp
      have hi: "agent_config_history d' = agent_config_history d @ [audit_row hid now OLD ?patched m]"
        using row(3) bump(1) by simp
      have idn: "a_id ?NEW = aid" using bump(2) oid by simp
      have hs: "\<forall>h\<in>set [audit_row hid now OLD ?patched m]. h_agent_id h = aid"
        using oid by (simp add: audit_row_def)
      have ver: "a_version ?NEW = Some (audit_count d aid + int (length [audit_row hid now OLD ?patched m]) + 1)"
        using bump(2) vo by (simp add: coalesce0_def)
      show ?thesis by (rule inv_update[OF inv ag idn hi hs exid ver])
    qed
  qed
qed

lemma inv_step:
  assumes inv: "version_audit_inv d"
    and tr: "trigger_only d x"
    and ex: "exec uid now x d = Inr d'"
  shows "version_audit_inv d'"
proof (cases "agent_neutral x")
  case True
  from exec_neutral_frame[OF True ex] version_audit_inv_cong[of d' d] inv show ?thesis by simp
next
  case False
  then show ?thesis
  proof (cases x)
    case (InsertAgent i)
    with ex have e: "insert_agent uid now i d = Inr d'" by simp
    from tr InsertAgent have v: "a_version (agent_row now i) = Some 1"
      by (simp add: agent_row_def)
    from insert_agent_InrD(1)[OF e] have ag: "agents d' = agents d @ [agent_row now i]"
      and hi: "agent_config_history d' = agent_config_history d" by simp_all
    from agents_constraints_NoneD(3)[OF insert_agent_InrD(3)[OF e]]
    have fresh: "a_id (agent_row now i) \<notin> set (map a_id (agents d))" .
    show ?thesis by (rule inv_insert[OF inv ag hi fresh v])
  next
    case (UpdateAgent hid aid patch)
    with ex tr inv_step_update[OF inv] show ?thesis by simp
  next
    case (DeleteAgent aid)
    with ex have e: "delete_agent uid aid d = Inr d'" by simp
    show ?thesis
    proof (cases "list_ex (\<lambda>a. a_id a = aid \<and> agents_delete_admin (profiles d) uid a) (agents d)")
      case True
      with e have ag: "agents d' = filter (\<lambda>a. a_id a \<noteq> aid) (agents d)"
        and hi: "agent_config_history d' = filter (\<lambda>h. h_agent_id h \<noteq> aid) (agent_config_history d)"
        by (auto simp: delete_agent_def)
      show ?thesis by (rule inv_delete[OF inv ag hi])
    next
      case False
      with e inv show ?thesis by (simp add: delete_agent_def)
    qed
  next
    case (InsertHistory h)
    with tr show ?thesis by simp
  qed simp_all
qed

lemma inv_empty: "version_audit_inv empty_db"
  by (simp add: version_audit_inv_def empty_db_def)

lemma reachable_inv: "reachable_by trigger_only d \<Longrightarrow> version_audit_inv d"
  by (induction rule: reachable_by.induct) (auto intro: inv_empty inv_step)

text \<open>
  Claim C2, as amended.  In every state reached from the empty database by statements
  that leave the version counter and the audit table to the trigger (agents inserted
  with version 1, no UPDATE that assigns \<^verbatim>\<open>version\<close>, no INSERT of a caller into
  \<^verbatim>\<open>agent_config_history\<close>), every agent has a version counter, and the number of
  audit rows that reference the agent is the counter minus 1.
\<close>

theorem C2_audit_count_is_version_minus_one:
  assumes "reachable_by trigger_only d" and "a \<in> set (agents d)"
  shows "\<exists>v. a_version a = Some v \<and> audit_count d (a_id a) = v - 1"
proof -
  from reachable_inv[OF assms(1)] assms(2)
  have "a_version a = Some (audit_count d (a_id a) + 1)"
    by (simp add: version_audit_inv_def list_all_iff)
  then show ?thesis by simp
qed

theorem C2_audit_count_is_version_minus_one_witness:
  "reachable_by trigger_only renamed_db
   \<and> renamed_agent \<in> set (agents renamed_db)
   \<and> a_version renamed_agent = Some 2
   \<and> audit_count renamed_db (a_id renamed_agent) = 2 - 1"
proof -
  have 1: "renamed_agent \<in> set (agents renamed_db)" by (simp add: renamed_db_def)
  have 2: "a_version renamed_agent = Some 2" by (simp add: renamed_agent_def)
  from C2_audit_count_is_version_minus_one[OF reachable_renamed 1] 2
  have 3: "audit_count renamed_db (a_id renamed_agent) = 2 - 1" by auto
  show ?thesis by (intro conjI reachable_renamed 1 2 3)
qed

text \<open>
  As the claim states it, for every reachable state, it fails: the policy "Admins can
  insert config history" lets the administrator of the demo data insert an audit row
  for "Agent Copy" by hand, after which the agent has version 1 and one audit row;
  and an agent the administrator creates with \<^verbatim>\<open>version = 7\<close> has version 7 and no
  audit row.
\<close>

theorem C2_manual_audit_row_counterexample:
  "exec (Some 8) 4 (InsertHistory manual_audit_row) seeded_db
     = Inr (seeded_db\<lparr>agent_config_history := [manual_audit_row]\<rparr>)
   \<and> reachable (seeded_db\<lparr>agent_config_history := [manual_audit_row]\<rparr>)
   \<and> seeded_agent \<in> set (agents (seeded_db\<lparr>agent_config_history := [manual_audit_row]\<rparr>))
   \<and> a_version seeded_agent = Some 1
   \<and> audit_count (seeded_db\<lparr>agent_config_history := [manual_audit_row]\<rparr>) (a_id seeded_agent) = 1
   \<and> audit_count (seeded_db\<lparr>agent_config_history := [manual_audit_row]\<rparr>) (a_id seeded_agent) \<noteq> 1 - 1
   \<and> exec (Some 8) 4 (InsertAgent agent_versioned) seeded_db
       = Inr (seeded_db\<lparr>agents := [seeded_agent, agent_row 4 agent_versioned]\<rparr>)
   \<and> reachable (seeded_db\<lparr>agents := [seeded_agent, agent_row 4 agent_versioned]\<rparr>)
   \<and> a_version (agent_row 4 agent_versioned) = Some 7
   \<and> audit_count (seeded_db\<lparr>agents := [seeded_agent, agent_row 4 agent_versioned]\<rparr>)
         (a_id (agent_row 4 agent_versioned)) = 0
   \<and> audit_count (seeded_db\<lparr>agents := [seeded_agent, agent_row 4 agent_versioned]\<rparr>)
         (a_id (agent_row 4 agent_versioned)) \<noteq> 7 - 1"
proof -
  have r: "reachable (seeded_db\<lparr>agent_config_history := [manual_audit_row]\<rparr>)"
    using reachable_by.step[OF reachable_seeded[unfolded reachable_def] _ manual_insert]
    by (simp add: reachable_def)
  have c: "audit_count (seeded_db\<lparr>agent_config_history := [manual_audit_row]\<rparr>) (a_id seeded_agent) = 1"
    by (simp add: audit_count_def manual_audit_row_def seeded_agent_def)
  have 1: "seeded_agent \<in> set (agents (seeded_db\<lparr>agent_config_history := [manual_audit_row]\<rparr>))"
    by (simp add: seeded_db_def)
  have 2: "a_version seeded_agent = Some 1" by (simp add: seeded_agent_def)
  from c have 3: "audit_count (seeded_db\<lparr>agent_config_history := [manual_audit_row]\<rparr>) (a_id seeded_agent) \<noteq> 1 - 1"
    by simp
  have 4: "exec (Some 8) 4 (InsertAgent agent_versioned) seeded_db
       = Inr (seeded_db\<lparr>agents := [seeded_agent, agent_row 4 agent_versioned]\<rparr>)"
    by (simp add: agent_versioned_def agent_copy_def agent_row_def seeded_db_def seeded_agent_def
          seeded_admin_def seeded_member_def eval_defs)
  have 5: "reachable (seeded_db\<lparr>agents := [seeded_agent, agent_row 4 agent_versioned]\<rparr>)"
    using reachable_by.step[OF reachable_seeded[unfolded reachable_def] _ 4]
    by (simp add: reachable_def)
  have 6: "a_version (agent_row 4 agent_versioned) = Some 7"
    by (simp add: agent_versioned_def agent_row_def)
  have 7: "audit_count (seeded_db\<lparr>agents := [seeded_agent, agent_row 4 agent_versioned]\<rparr>)
         (a_id (agent_row 4 agent_versioned)) = 0"
    by (simp add: audit_count_def seeded_db_def)
  from 7 have 8: "audit_count (seeded_db\<lparr>agents := [seeded_agent, agent_row 4 agent_versioned]\<rparr>)
         (a_id (agent_row 4 agent_versioned)) \<noteq> 7 - 1"
    by simp
  show ?thesis by (intro conjI manual_insert r 1 2 c 3 4 5 6 7 8)
qed

subsection \<open>Updates of agents\<close>

lemma tracked_fields_equal_id:
  "tracked_fields_equal OLD (NEW\<lparr>a_id := x\<rparr>) = tracked_fields_equal OLD NEW"
  by (simp add: tracked_fields_equal_def)

text \<open>
  Claim C3, as amended.  For every accepted update of an agent \<open>OLD\<close> (an UPDATE that
  found the row and raised no error): if a tracked field (name, role, system prompt,
  model, temperature, activation flag) changes and \<^verbatim>\<open>modified_by\<close> of the new row is
  not NULL, the stored version is \<^verbatim>\<open>COALESCE(OLD.version, 0) + 1\<close> and exactly one
  audit row is appended, for this agent, by this principal, with the snapshot of
  \<open>OLD\<close>; if no tracked field changes or \<^verbatim>\<open>modified_by\<close> is NULL, no audit row is
  appended and the stored version is the one the statement supplies (the previous
  version when its SET list does not assign \<^verbatim>\<open>version\<close>).  An update of a sub-agent
  never appends an audit row.
\<close>

theorem C3_update_bumps_version_with_audit_row:
  assumes upd: "update_agent uid now hid aid patch d = Inr d'"
    and row: "filter (\<lambda>a. a_id a = aid \<and> agents_update_admin (profiles d) uid a) (agents d) = OLD # rest"
  shows "(\<not> tracked_fields_equal OLD (patch OLD) \<and> a_modified_by (patch OLD) \<noteq> None \<longrightarrow>
            (\<exists>NEW h. agents d' = map (\<lambda>a. if a_id a = aid then NEW else a) (agents d)
               \<and> a_version NEW = Some (coalesce0 (a_version OLD) + 1)
               \<and> agent_config_history d' = agent_config_history d @ [h]
               \<and> h_agent_id h = aid \<and> Some (h_changed_by h) = a_modified_by (patch OLD)
               \<and> h_previous_config h = prev_config_of OLD))
       \<and> (tracked_fields_equal OLD (patch OLD) \<or> a_modified_by (patch OLD) = None \<longrightarrow>
            (\<exists>NEW. agents d' = map (\<lambda>a. if a_id a = aid then NEW else a) (agents d)
               \<and> a_version NEW = a_version (patch OLD)
               \<and> agent_config_history d' = agent_config_history d))
       \<and> (update_sub_agent uid2 now2 sid patch2 d2 = Inr d2' \<longrightarrow>
            agent_config_history d2' = agent_config_history d2)"
proof -
  let ?patched = "(patch OLD)\<lparr>a_id := a_id OLD\<rparr>"
  from update_agent_InrD[OF upd] row obtain NEW1 d1 where
    t: "track_agent_config_change hid now OLD ?patched d = Inr (NEW1, d1)"
    and e: "d' = d1\<lparr>agents := map (\<lambda>a. if a_id a = aid then NEW1\<lparr>a_updated_at := Some now\<rparr> else a) (agents d1)\<rparr>"
    by auto
  let ?NEW = "NEW1\<lparr>a_updated_at := Some now\<rparr>"
  from filter_Cons_mem[OF row] have oid: "a_id OLD = aid" by simp
  from track_InrD[OF t]
  consider (same) "tracked_fields_equal OLD (patch OLD) \<or> a_modified_by (patch OLD) = None"
                  "NEW1 = ?patched" "d1 = d"
    | (bump) m where "\<not> tracked_fields_equal OLD (patch OLD)" "a_modified_by (patch OLD) = Some m"
          "d1 = d\<lparr>agent_config_history := agent_config_history d @ [audit_row hid now OLD ?patched m]\<rparr>"
          "NEW1 = ?patched\<lparr>a_version := Some (coalesce0 (a_version OLD) + 1)\<rparr>"
    unfolding tracked_fields_equal_id by auto
  then have main: "(\<not> tracked_fields_equal OLD (patch OLD) \<and> a_modified_by (patch OLD) \<noteq> None \<longrightarrow>
            (\<exists>NEW h. agents d' = map (\<lambda>a. if a_id a = aid then NEW else a) (agents d)
               \<and> a_version NEW = Some (coalesce0 (a_version OLD) + 1)
               \<and> agent_config_history d' = agent_config_history d @ [h]
               \<and> h_agent_id h = aid \<and> Some (h_changed_by h) = a_modified_by (patch OLD)
               \<and> h_previous_config h = prev_config_of OLD))
       \<and> (tracked_fields_equal OLD (patch OLD) \<or> a_modified_by (patch OLD) = None \<longrightarrow>
            (\<exists>NEW. agents d' = map (\<lambda>a. if a_id a = aid then NEW else a) (agents d)
               \<and> a_version NEW = a_version (patch OLD)
               \<and> agent_config_history d' = agent_config_history d))"
  proof cases
    case same
    have ag: "agents d' = map (\<lambda>a. if a_id a = aid then ?NEW else a) (agents d)"
      using e same(3) by simp
    have hi: "agent_config_history d' = agent_config_history d" using e same(3) by simp
    have ver: "a_version ?NEW = a_version (patch OLD)" using same(2) by simp
    have ex2: "\<exists>NEW. agents d' = map (\<lambda>a. if a_id a = aid then NEW else a) (agents d)
               \<and> a_version NEW = a_version (patch OLD)
               \<and> agent_config_history d' = agent_config_history d"
      by (rule exI[of _ ?NEW]) (simp only: ag hi ver simp_thms)
    show ?thesis
    proof (intro conjI impI)
      assume "\<not> tracked_fields_equal OLD (patch OLD) \<and> a_modified_by (patch OLD) \<noteq> None"
      with same(1) have False by simp
      then show "\<exists>NEW h. agents d' = map (\<lambda>a. if a_id a = aid then NEW else a) (agents d)
               \<and> a_version NEW = Some (coalesce0 (a_version OLD) + 1)
               \<and> agent_config_history d' = agent_config_history d @ [h]
               \<and> h_agent_id h = aid \<and> Some (h_changed_by h) = a_modified_by (patch OLD)
               \<and> h_previous_config h = prev_config_of OLD" ..
    next
      show "\<exists>NEW. agents d' = map (\<lambda>a. if a_id a = aid then NEW else a) (agents d)
               \<and> a_version NEW = a_version (patch OLD)
               \<and> agent_config_history d' = agent_config_history d" by (rule ex2)
    qed
  next
    case bump
    have ag: "agents d' = map (\<lambda>a. if a_id a = aid then ?NEW else a) (agents d)"
      using e bump(3) by simp
    have hi: "agent_config_history d' = agent_config_history d @ [audit_row hid now OLD ?patched m]"
      using e bump(3) by simp
    have ver: "a_version ?NEW = Some (coalesce0 (a_version OLD) + 1)" using bump(4) by simp
    have h: "h_agent_id (audit_row hid now OLD ?patched m) = aid"
            "Some (h_changed_by (audit_row hid now OLD ?patched m)) = a_modified_by (patch OLD)"
            "h_previous_config (audit_row hid now OLD ?patched m) = prev_config_of OLD"
      using oid bump(2) by (simp_all add: audit_row_def)
    have ex1: "\<exists>NEW h. agents d' = map (\<lambda>a. if a_id a = aid then NEW else a) (agents d)
               \<and> a_version NEW = Some (coalesce0 (a_version OLD) + 1)
               \<and> agent_config_history d' = agent_config_history d @ [h]
               \<and> h_agent_id h = aid \<and> Some (h_changed_by h) = a_modified_by (patch OLD)
               \<and> h_previous_config h = prev_config_of OLD"
      by (rule exI[of _ ?NEW], rule exI[of _ "audit_row hid now OLD ?patched m"])
         (simp only: ag hi ver h simp_thms)
    show ?thesis
    proof (intro conjI impI)
      show "\<exists>NEW h. agents d' = map (\<lambda>a. if a_id a = aid then NEW else a) (agents d)
               \<and> a_version NEW = Some (coalesce0 (a_version OLD) + 1)
               \<and> agent_config_history d' = agent_config_history d @ [h]
               \<and> h_agent_id h = aid \<and> Some (h_changed_by h) = a_modified_by (patch OLD)
               \<and> h_previous_config h = prev_config_of OLD" by (rule ex1)
    next
      assume "tracked_fields_equal OLD (patch OLD) \<or> a_modified_by (patch OLD) = None"
      with bump(1,2) have False by simp
      then show "\<exists>NEW. agents d' = map (\<lambda>a. if a_id a = aid then NEW else a) (agents d)
               \<and> a_version NEW = a_version (patch OLD)
               \<and> agent_config_history d' = agent_config_history d" ..
    qed
  qed
  have sub: "update_sub_agent uid2 now2 sid patch2 d2 = Inr d2' \<longrightarrow>
            agent_config_history d2' = agent_config_history d2"
    using update_sub_agent_history by blast
  note m1 = main[THEN conjunct1] and m2 = main[THEN conjunct2]
  show ?thesis by (intro conjI m1 m2 sub)
qed

theorem C3_update_bumps_version_with_audit_row_witness:
  "update_agent (Some 8) 4 70 5 rename_by_admin seeded_db = Inr renamed_db
   \<and> filter (\<lambda>a. a_id a = 5 \<and> agents_update_admin (profiles seeded_db) (Some 8) a) (agents seeded_db)
       = [seeded_agent]
   \<and> \<not> tracked_fields_equal seeded_agent (rename_by_admin seeded_agent)
   \<and> a_modified_by (rename_by_admin seeded_agent) \<noteq> None
   \<and> (\<exists>NEW h. agents renamed_db = map (\<lambda>a. if a_id a = 5 then NEW else a) (agents seeded_db)
               \<and> a_version NEW = Some (coalesce0 (a_version seeded_agent) + 1)
               \<and> agent_config_history renamed_db = agent_config_history seeded_db @ [h]
               \<and> h_agent_id h = 5 \<and> Some (h_changed_by h) = a_modified_by (rename_by_admin seeded_agent)
               \<and> h_previous_config h = prev_config_of seeded_agent)
   \<and> coalesce0 (a_version seeded_agent) + 1 = 2"
proof -
  have 1: "\<not> tracked_fields_equal seeded_agent (rename_by_admin seeded_agent)"
    by (simp add: tracked_fields_equal_def rename_by_admin_def seeded_agent_def)
  have 2: "a_modified_by (rename_by_admin seeded_agent) \<noteq> None"
    by (simp add: rename_by_admin_def)
  have 3: "coalesce0 (a_version seeded_agent) + 1 = 2"
    by (simp add: coalesce0_def seeded_agent_def)
  note t = C3_update_bumps_version_with_audit_row[OF rename_update seeded_row]
  from t[THEN conjunct1] 1 2
  have 4: "\<exists>NEW h. agents renamed_db = map (\<lambda>a. if a_id a = 5 then NEW else a) (agents seeded_db)
               \<and> a_version NEW = Some (coalesce0 (a_version seeded_agent) + 1)
               \<and> agent_config_history renamed_db = agent_config_history seeded_db @ [h]
               \<and> h_agent_id h = 5 \<and> Some (h_changed_by h) = a_modified_by (rename_by_admin seeded_agent)
               \<and> h_previous_config h = prev_config_of seeded_agent"
    by simp
  show ?thesis by (intro conjI rename_update seeded_row 1 2 4 3)
qed

text \<open>
  As the claim states it, for every update of a configurable entity, it fails twice on
  the demo data: the administrator renames a sub-agent, with \<^verbatim>\<open>modified_by\<close> set, and
  no audit row is produced (the table \<^verbatim>\<open>sub_agents\<close> has no version and no audit
  trigger); and an UPDATE of "Agent Copy" that assigns \<^verbatim>\<open>version = 7\<close> and changes
  no tracked field is stored with version 7, where the version was 1.
\<close>

theorem C3_unaudited_updates_counterexample:
  "insert_sub_agent (Some 8) 5 hooks_writer seeded_db = Inr hooks_db
   \<and> sa_name (sub_agent_row 5 hooks_writer) \<noteq> sa_name (rename_hooks (sub_agent_row 5 hooks_writer))
   \<and> sa_modified_by (rename_hooks (sub_agent_row 5 hooks_writer)) = Some 8
   \<and> update_sub_agent (Some 8) 6 50 rename_hooks hooks_db
       = Inr (hooks_db\<lparr>sub_agents := [(sub_agent_row 5 hooks_writer)\<lparr>sa_name := ''Hooks 2'',
                sa_modified_by := Some 8, sa_updated_at := Some 6\<rparr>]\<rparr>)
   \<and> agent_config_history (hooks_db\<lparr>sub_agents := [(sub_agent_row 5 hooks_writer)\<lparr>sa_name := ''Hooks 2'',
                sa_modified_by := Some 8, sa_updated_at := Some 6\<rparr>]\<rparr>) = []
   \<and> tracked_fields_equal seeded_agent (write_version seeded_agent)
   \<and> a_version seeded_agent = Some 1
   \<and> update_agent (Some 8) 4 70 5 write_version seeded_db
       = Inr (seeded_db\<lparr>agents := [seeded_agent\<lparr>a_version := Some 7, a_updated_at := Some 4\<rparr>]\<rparr>)"
proof -
  have 1: "sa_name (sub_agent_row 5 hooks_writer) \<noteq> sa_name (rename_hooks (sub_agent_row 5 hooks_writer))"
    by (simp add: sub_agent_row_def hooks_writer_def rename_hooks_def)
  have 2: "sa_modified_by (rename_hooks (sub_agent_row 5 hooks_writer)) = Some 8"
    by (simp add: rename_hooks_def)
  have 3: "agent_config_history (hooks_db\<lparr>sub_agents := [(sub_agent_row 5 hooks_writer)\<lparr>sa_name := ''Hooks 2'',
                sa_modified_by := Some 8, sa_updated_at := Some 6\<rparr>]\<rparr>) = []"
    by (simp add: hooks_db_def seeded_db_def)
  have 4: "tracked_fields_equal seeded_agent (write_version seeded_agent)"
    by (simp add: tracked_fields_equal_def write_version_def)
  have 5: "a_version seeded_agent = Some 1" by (simp add: seeded_agent_def)
  show ?thesis by (intro conjI hooks_insert 1 2 hooks_rename 3 4 5 version_write)
qed

subsection \<open>Where audit rows come from\<close>

lemma insert_history_InrD:
  assumes "insert_history uid h d = Inr d'"
  shows "admins_can_insert_config_history (profiles d) uid"
    and "d' = d\<lparr>agent_config_history := agent_config_history d @ [h]\<rparr>"
  using assms insert_history_row_InrD(1)[of h d d']
  by (simp_all add: insert_history_def split: if_splits)

lemma delete_agent_history:
  assumes "delete_agent uid aid d = Inr d'"
  shows "set (agent_config_history d') \<subseteq> set (agent_config_history d)"
  using assms by (auto simp: delete_agent_def split: if_splits)

text \<open>
  Claim C4, as amended.  When a statement succeeds and the audit table holds a row it
  did not hold before, then either the statement is an UPDATE of an agent the caller
  may update, a tracked field of the agent changes, \<^verbatim>\<open>modified_by\<close> is set, and the
  row is the one the trigger builds; or the statement is the caller's own INSERT of
  that row into \<^verbatim>\<open>agent_config_history\<close> and the caller has a profile with role
  \<^verbatim>\<open>admin\<close> (the policy "Admins can insert config history"), and no agent changes.
  No other statement adds an audit row.
\<close>

theorem C4_audit_rows_come_from_trigger_or_admin_insert:
  assumes ex: "exec uid now x d = Inr d'"
    and new: "h \<in> set (agent_config_history d')"
    and old: "h \<notin> set (agent_config_history d)"
  shows "(\<exists>hid aid patch OLD.
            x = UpdateAgent hid aid patch
          \<and> OLD \<in> set (agents d) \<and> a_id OLD = aid
          \<and> agents_update_admin (profiles d) uid OLD
          \<and> \<not> tracked_fields_equal OLD (patch OLD)
          \<and> a_modified_by (patch OLD) = Some (h_changed_by h)
          \<and> h = audit_row hid now OLD ((patch OLD)\<lparr>a_id := a_id OLD\<rparr>) (h_changed_by h)
          \<and> agent_config_history d' = agent_config_history d @ [h])
       \<or> (x = InsertHistory h \<and> admins_can_insert_config_history (profiles d) uid
          \<and> agent_config_history d' = agent_config_history d @ [h]
          \<and> agents d' = agents d)"
proof (cases "agent_neutral x")
  case True
  from exec_neutral_frame[OF True ex] new old show ?thesis by simp
next
  case False
  then show ?thesis
  proof (cases x)
    case (InsertAgent i)
    with ex have "insert_agent uid now i d = Inr d'" by simp
    from insert_agent_InrD(1)[OF this] new old show ?thesis by simp
  next
    case (DeleteAgent aid)
    with ex have "delete_agent uid aid d = Inr d'" by simp
    from delete_agent_history[OF this] new old show ?thesis by blast
  next
    case (InsertHistory g)
    with ex have e: "insert_history uid g d = Inr d'" by simp
    from insert_history_InrD[OF e] new old have "h = g" by auto
    with insert_history_InrD[OF e] InsertHistory show ?thesis by simp
  next
    case (UpdateAgent hid aid patch)
    with ex have e: "update_agent uid now hid aid patch d = Inr d'" by simp
    from update_agent_InrD[OF e] new old obtain OLD rest NEW1 d1 where
      row: "filter (\<lambda>a. a_id a = aid \<and> agents_update_admin (profiles d) uid a) (agents d) = OLD # rest"
      and t: "track_agent_config_change hid now OLD ((patch OLD)\<lparr>a_id := a_id OLD\<rparr>) d = Inr (NEW1, d1)"
      and dd: "d' = d1\<lparr>agents := map (\<lambda>a. if a_id a = aid then NEW1\<lparr>a_updated_at := Some now\<rparr> else a) (agents d1)\<rparr>"
      by auto
    let ?patched = "(patch OLD)\<lparr>a_id := a_id OLD\<rparr>"
    from filter_Cons_mem[OF row] have oin: "OLD \<in> set (agents d)" and oid: "a_id OLD = aid"
      and pol: "agents_update_admin (profiles d) uid OLD" by simp_all
    from dd have hd: "agent_config_history d' = agent_config_history d1" by simp
    from track_InrD[OF t] new old hd obtain m where
      ne: "\<not> tracked_fields_equal OLD ?patched"
      and m: "a_modified_by ?patched = Some m"
      and d1: "d1 = d\<lparr>agent_config_history := agent_config_history d @ [audit_row hid now OLD ?patched m]\<rparr>"
      by auto
    from d1 hd have hi: "agent_config_history d' = agent_config_history d @ [audit_row hid now OLD ?patched m]"
      by simp
    with new old have hh: "h = audit_row hid now OLD ?patched m" by simp
    then have cb: "h_changed_by h = m" by (simp add: audit_row_def)
    from ne have ne': "\<not> tracked_fields_equal OLD (patch OLD)" by (simp add: tracked_fields_equal_id)
    from m have m': "a_modified_by (patch OLD) = Some (h_changed_by h)" using cb by simp
    have "x = UpdateAgent hid aid patch
          \<and> OLD \<in> set (agents d) \<and> a_id OLD = aid
          \<and> agents_update_admin (profiles d) uid OLD
          \<and> \<not> tracked_fields_equal OLD (patch OLD)
          \<and> a_modified_by (patch OLD) = Some (h_changed_by h)
          \<and> h = audit_row hid now OLD ((patch OLD)\<lparr>a_id := a_id OLD\<rparr>) (h_changed_by h)
          \<and> agent_config_history d' = agent_config_history d @ [h]"
      using UpdateAgent oin oid pol ne' m' hh hi cb by simp
    then show ?thesis by blast
  qed simp_all
qed

theorem C4_audit_rows_come_from_trigger_or_admin_insert_witness:
  "exec (Some 8) 4 (UpdateAgent 70 5 rename_by_admin) seeded_db = Inr renamed_db
   \<and> audit_row 70 4 seeded_agent (rename_by_admin seeded_agent) 8 \<in> set (agent_config_history renamed_db)
   \<and> audit_row 70 4 seeded_agent (rename_by_admin seeded_agent) 8 \<notin> set (agent_config_history seeded_db)
   \<and> ((\<exists>hid aid patch OLD.
            UpdateAgent 70 5 rename_by_admin = UpdateAgent hid aid patch
          \<and> OLD \<in> set (agents seeded_db) \<and> a_id OLD = aid
          \<and> agents_update_admin (profiles seeded_db) (Some 8) OLD
          \<and> \<not> tracked_fields_equal OLD (patch OLD)
          \<and> a_modified_by (patch OLD)
              = Some (h_changed_by (audit_row 70 4 seeded_agent (rename_by_admin seeded_agent) 8))
          \<and> audit_row 70 4 seeded_agent (rename_by_admin seeded_agent) 8
              = audit_row hid 4 OLD ((patch OLD)\<lparr>a_id := a_id OLD\<rparr>)
                  (h_changed_by (audit_row 70 4 seeded_agent (rename_by_admin seeded_agent) 8))
          \<and> agent_config_history renamed_db
              = agent_config_history seeded_db @ [audit_row 70 4 seeded_agent (rename_by_admin seeded_agent) 8])
       \<or> (UpdateAgent 70 5 rename_by_admin
             = InsertHistory (audit_row 70 4 seeded_agent (rename_by_admin seeded_agent) 8)
          \<and> admins_can_insert_config_history (profiles seeded_db) (Some 8)
          \<and> agent_config_history renamed_db
              = agent_config_history seeded_db @ [audit_row 70 4 seeded_agent (rename_by_admin seeded_agent) 8]
          \<and> agents renamed_db = agents seeded_db))"
proof -
  have 1: "audit_row 70 4 seeded_agent (rename_by_admin seeded_agent) 8 \<in> set (agent_config_history renamed_db)"
    by (simp add: renamed_db_def)
  have 2: "audit_row 70 4 seeded_agent (rename_by_admin seeded_agent) 8 \<notin> set (agent_config_history seeded_db)"
    by (simp add: seeded_db_def)
  note t = C4_audit_rows_come_from_trigger_or_admin_insert[OF rename_exec 1 2]
  show ?thesis by (intro conjI rename_exec 1 2 t)
qed

text \<open>
  As the claim states it, no caller creates an audit row directly, it fails: the
  administrator of the demo data inserts a row into the empty audit table by hand, and
  no agent is changed.
\<close>

theorem C4_direct_insert_counterexample:
  "admins_can_insert_config_history (profiles seeded_db) (Some 8)
   \<and> insert_history (Some 8) manual_audit_row seeded_db
       = Inr (seeded_db\<lparr>agent_config_history := [manual_audit_row]\<rparr>)
   \<and> agents (seeded_db\<lparr>agent_config_history := [manual_audit_row]\<rparr>) = agents seeded_db
   \<and> agent_config_history seeded_db = []"
proof -
  have 1: "admins_can_insert_config_history (profiles seeded_db) (Some 8)"
    by (simp add: admins_can_insert_config_history_def seeded_db_def seeded_admin_def)
  have 2: "insert_history (Some 8) manual_audit_row seeded_db
       = Inr (seeded_db\<lparr>agent_config_history := [manual_audit_row]\<rparr>)"
    using manual_insert by simp
  have 3: "agents (seeded_db\<lparr>agent_config_history := [manual_audit_row]\<rparr>) = agents seeded_db" by simp
  have 4: "agent_config_history seeded_db = []" by (simp add: seeded_db_def)
  show ?thesis by (intro conjI 1 2 3 4)
qed

subsection \<open>Creation: slug conflicts and the first version\<close>












subsection \<open>Bounds of temperature and response length\<close>
























end
